theory Spec2Isabelle
  imports Complex_Main "HOL-Library.Sublist" "HOL-Library.Log_Nat"
begin

section \<open>Python values and builtins\<close>

text \<open>
  The pipeline threads loosely typed dictionaries through its stages, so the values of
  the source are modelled by one datatype. A Python \<open>float\<close> is an IEEE-754 double: the
  model keeps the value of a finite double as a real number, and the arithmetic of
  \<open>haversine_km\<close> rounds the exact result of every operation to the nearest double.
  NaN, the infinities and overflow are outside the model, and so is the rounding of
  \<open>float(i)\<close> for an integer beyond \<open>2 ^ 53\<close>. A Python \<open>str\<close> is a
  \<open>string\<close>; text beyond ASCII is its UTF-8 bytes, and \<open>strip\<close>/\<open>lower\<close> act on the
  ASCII whitespace and letters only. A dictionary nested in a value is an association
  list read with \<open>map_of\<close> (the first binding of a key is the dictionary's binding).
\<close>

datatype pyval =
    PNone
  | PBool bool
  | PInt int
  | PFloat real
  | PStr string
  | PTuple "pyval list"
  | PList "pyval list"
  | PDict "(string \<times> pyval) list"

text \<open>
  The \<open>ValueError\<close>s of the source and of the library calls it makes, by what their
  texts say; the other exceptions by their class.
\<close>

datatype msg =
    Could_not_convert
  | Math_domain_error
  | Shape_mismatch
  | Axis_out_of_bounds
  | Mode_not_device_or_manual
  | Origin_not_numeric
  | Coords_out_of_range
  | Radius_not_numeric
  | Radius_negative
  | Topn_not_integer
  | Topn_below_one
  | Device_coords_invalid
  | Manual_coords_invalid

datatype error = ValueError msg | TypeError | AttributeError | IndexError | RequestError

text \<open>
  \<open>float(s)\<close> and \<open>int(s)\<close> on a string are the interpreter's parsers; the model takes
  them as parameters, \<open>None\<close> where the interpreter raises \<open>ValueError\<close>.
\<close>

record builtins =
  str_float :: "string \<Rightarrow> real option"
  str_int :: "string \<Rightarrow> int option"

fun truthy :: "pyval \<Rightarrow> bool" where
  "truthy PNone = False"
| "truthy (PBool b) = b"
| "truthy (PInt i) = (i \<noteq> 0)"
| "truthy (PFloat f) = (f \<noteq> 0)"
| "truthy (PStr s) = (s \<noteq> [])"
| "truthy (PTuple xs) = (xs \<noteq> [])"
| "truthy (PList xs) = (xs \<noteq> [])"
| "truthy (PDict kv) = (kv \<noteq> [])"

text \<open>\<open>x or d\<close>\<close>

definition py_or :: "pyval \<Rightarrow> pyval \<Rightarrow> pyval" where
  "py_or x d = (if truthy x then x else d)"

text \<open>\<open>float(x)\<close>\<close>

fun py_float :: "builtins \<Rightarrow> pyval \<Rightarrow> error + real" where
  "py_float B (PFloat f) = Inr f"
| "py_float B (PInt i) = Inr (real_of_int i)"
| "py_float B (PBool b) = Inr (if b then 1 else 0)"
| "py_float B (PStr s) =
     (case str_float B s of None \<Rightarrow> Inl (ValueError Could_not_convert) | Some f \<Rightarrow> Inr f)"
| "py_float B PNone = Inl TypeError"
| "py_float B (PTuple xs) = Inl TypeError"
| "py_float B (PList xs) = Inl TypeError"
| "py_float B (PDict kv) = Inl TypeError"

text \<open>\<open>int(x)\<close>: a float is truncated towards zero.\<close>

definition py_trunc :: "real \<Rightarrow> int" where
  "py_trunc f = (if 0 \<le> f then \<lfloor>f\<rfloor> else \<lceil>f\<rceil>)"

fun py_int :: "builtins \<Rightarrow> pyval \<Rightarrow> error + int" where
  "py_int B (PInt i) = Inr i"
| "py_int B (PFloat f) = Inr (py_trunc f)"
| "py_int B (PBool b) = Inr (if b then 1 else 0)"
| "py_int B (PStr s) =
     (case str_int B s of None \<Rightarrow> Inl (ValueError Could_not_convert) | Some i \<Rightarrow> Inr i)"
| "py_int B PNone = Inl TypeError"
| "py_int B (PTuple xs) = Inl TypeError"
| "py_int B (PList xs) = Inl TypeError"
| "py_int B (PDict kv) = Inl TypeError"

text \<open>\<open>d > x\<close> for a float \<open>d\<close>: ordered against numbers only.\<close>

fun float_gt :: "real \<Rightarrow> pyval \<Rightarrow> error + bool" where
  "float_gt d (PFloat f) = Inr (d > f)"
| "float_gt d (PInt i) = Inr (d > real_of_int i)"
| "float_gt d (PBool b) = Inr (d > (if b then 1 else 0))"
| "float_gt d PNone = Inl TypeError"
| "float_gt d (PStr s) = Inl TypeError"
| "float_gt d (PTuple xs) = Inl TypeError"
| "float_gt d (PList xs) = Inl TypeError"
| "float_gt d (PDict kv) = Inl TypeError"

definition is_space :: "char \<Rightarrow> bool" where
  "is_space c = (let n = (of_char c :: nat) in (9 \<le> n \<and> n \<le> 13) \<or> (28 \<le> n \<and> n \<le> 32))"

definition strip :: "string \<Rightarrow> string" where
  "strip s = rev (dropWhile is_space (rev (dropWhile is_space s)))"

definition lower_char :: "char \<Rightarrow> char" where
  "lower_char c = (let n = (of_char c :: nat) in if 65 \<le> n \<and> n \<le> 90 then char_of (n + 32) else c)"

definition lower :: "string \<Rightarrow> string" where
  "lower s = map lower_char s"

text \<open>\<open>(x or "").strip()\<close>: only a string has \<open>strip\<close>.\<close>

definition or_empty_strip :: "pyval \<Rightarrow> error + string" where
  "or_empty_strip x =
     (case py_or x (PStr []) of PStr s \<Rightarrow> Inr (strip s) | _ \<Rightarrow> Inl AttributeError)"

text \<open>\<open>r.get(k)\<close> on a dictionary: \<open>None\<close> for a missing key.\<close>

definition dget :: "(string \<times> pyval) list \<Rightarrow> string \<Rightarrow> pyval" where
  "dget kv k = (case map_of kv k of None \<Rightarrow> PNone | Some v \<Rightarrow> v)"

text \<open>Rounding to the nearest integer, a tie to the even neighbour.\<close>

definition round_half_even :: "real \<Rightarrow> int" where
  "round_half_even x =
     (let f = \<lfloor>x\<rfloor>; r = x - of_int f
      in if r < 1 / 2 then f else if 1 / 2 < r then f + 1 else if even f then f else f + 1)"

section \<open>Double-precision arithmetic\<close>

text \<open>
  The exponent of a non-zero real: the \<open>k\<close> with \<open>2 ^ k \<le> |x| < 2 ^ (k + 1)\<close>.
\<close>

definition float_exponent :: "real \<Rightarrow> int" where
  "float_exponent x =
     (if 1 \<le> \<bar>x\<bar> then bitlen \<lfloor>\<bar>x\<bar>\<rfloor> - 1 else - bitlen (\<lceil>1 / \<bar>x\<bar>\<rceil> - 1))"

text \<open>
  Rounding to the nearest double, a tie to the even significand: 53 bits of significand,
  and the spacing of the subnormal numbers below \<open>2 ^ - 1022\<close>.
\<close>

definition round_double :: "real \<Rightarrow> real" where
  "round_double x =
     (if x = 0 then 0
      else let e = max (float_exponent x) (- 1022) - 52
           in of_int (round_half_even (x / 2 powi e)) * 2 powi e)"

text \<open>
  \<open>round(d, 3)\<close>: the double nearest to \<open>d\<close> rounded to the thousandth, a tie to the
  even neighbour.
\<close>

definition round3 :: "real \<Rightarrow> real" where
  "round3 d = round_double (of_int (round_half_even (d * 1000)) / 1000)"

text \<open>
  \<open>math.sin\<close>, \<open>math.cos\<close> and \<open>math.atan2\<close> call the C library, and so does \<open>x ** 2\<close>
  (\<open>pow(x, 2.0)\<close>). The C library promises a result close to the exact one but not its last
  bit, so the model takes these four functions as parameters.
\<close>

record libm =
  lm_sin :: "real \<Rightarrow> real"
  lm_cos :: "real \<Rightarrow> real"
  lm_atan2 :: "real \<Rightarrow> real \<Rightarrow> real"
  lm_pow2 :: "real \<Rightarrow> real"

text \<open>The angle of the point \<open>(x, y)\<close>, in \<open>(-pi, pi]\<close>.\<close>

definition atan2 :: "real \<Rightarrow> real \<Rightarrow> real" where
  "atan2 y x =
     (if 0 < x then arctan (y / x)
      else if x < 0 then (if 0 \<le> y then arctan (y / x) + pi else arctan (y / x) - pi)
      else if 0 < y then pi / 2
      else if y < 0 then - (pi / 2)
      else 0)"

text \<open>The C library whose every result is the double nearest to the exact one.\<close>

definition correctly_rounded :: libm where
  "correctly_rounded =
     \<lparr>lm_sin = (\<lambda>x. round_double (sin x)),
      lm_cos = (\<lambda>x. round_double (cos x)),
      lm_atan2 = (\<lambda>y x. round_double (atan2 y x)),
      lm_pow2 = (\<lambda>x. round_double (x\<^sup>2))\<rparr>"

text \<open>
  The constants of the \<open>math\<close> module: the double nearest to \<open>pi\<close>, and
  \<open>degToRad = Py_MATH_PI / 180.0\<close>.
\<close>

definition Py_MATH_PI :: real where
  "Py_MATH_PI = 884279719003555 / 281474976710656"

definition DEG_TO_RAD :: real where
  "DEG_TO_RAD = round_double (Py_MATH_PI / 180)"

text \<open>\<open>math.radians(x)\<close> is \<open>x * degToRad\<close>.\<close>

definition radians :: "real \<Rightarrow> real" where
  "radians x = round_double (x * DEG_TO_RAD)"

text \<open>\<open>math.sqrt\<close> raises on a negative argument, and is correctly rounded otherwise.\<close>

definition py_sqrt :: "real \<Rightarrow> error + real" where
  "py_sqrt x = (if x < 0 then Inl (ValueError Math_domain_error) else Inr (round_double (sqrt x)))"

section \<open>services/geo.py\<close>

text \<open>The double that the literal \<open>6371.0088\<close> denotes.\<close>

definition EARTH_RADIUS_KM :: real where
  "EARTH_RADIUS_KM = round_double (63710088 / 10000)"

text \<open>
  The local \<open>a\<close> of \<open>haversine_km\<close>, every operation rounded, in the order in which the
  interpreter evaluates the expression.
\<close>

definition haversine_a :: "libm \<Rightarrow> real \<Rightarrow> real \<Rightarrow> real \<Rightarrow> real \<Rightarrow> real" where
  "haversine_a M lat1 lon1 lat2 lon2 =
     (let phi1 = radians lat1; phi2 = radians lat2;
          dphi = round_double (phi2 - phi1);
          dlambda = radians (round_double (lon2 - lon1))
      in round_double
           (lm_pow2 M (lm_sin M (round_double (dphi / 2)))
            + round_double
                (round_double (lm_cos M phi1 * lm_cos M phi2)
                 * lm_pow2 M (lm_sin M (round_double (dlambda / 2))))))"

text \<open>
  \<open>haversine_km\<close>: the two square roots are taken before \<open>atan2\<close> is called, the one of
  \<open>a\<close> first, and either raises when its argument is negative.
\<close>

definition haversine_km :: "libm \<Rightarrow> real \<Rightarrow> real \<Rightarrow> real \<Rightarrow> real \<Rightarrow> error + real" where
  "haversine_km M lat1 lon1 lat2 lon2 =
     (let a = haversine_a M lat1 lon1 lat2 lon2
      in case py_sqrt a of
           Inl e \<Rightarrow> Inl e
         | Inr sa \<Rightarrow>
             (case py_sqrt (round_double (1 - a)) of
                Inl e \<Rightarrow> Inl e
              | Inr sb \<Rightarrow>
                  Inr (round_double (EARTH_RADIUS_KM * round_double (2 * lm_atan2 M sa sb)))))"

definition safe_float :: "builtins \<Rightarrow> pyval \<Rightarrow> real option" where
  "safe_float B x =
     (if x = PNone then None
      else case py_float B x of
             Inl e \<Rightarrow> None
           | Inr f \<Rightarrow> (if f = 0 then None else Some f))"

record recommendation =
  TITLE :: string
  ADDR :: string
  OPERATING_TIME :: string
  URL :: string
  LA :: real
  LO :: real
  DIST_KM :: real

text \<open>The dictionary appended for a row that passed the filters.\<close>

definition make_candidate ::
  "(string \<times> pyval) list \<Rightarrow> real \<Rightarrow> real \<Rightarrow> real \<Rightarrow> error + recommendation" where
  "make_candidate kv la lo d =
     (case or_empty_strip (dget kv ''TITLE'') of
        Inl e \<Rightarrow> Inl e
      | Inr t \<Rightarrow>
     (case or_empty_strip (dget kv ''ADDR'') of
        Inl e \<Rightarrow> Inl e
      | Inr ad \<Rightarrow>
     (case or_empty_strip (dget kv ''OPERATING_TIME'') of
        Inl e \<Rightarrow> Inl e
      | Inr ot \<Rightarrow>
     (case or_empty_strip (dget kv ''URL'') of
        Inl e \<Rightarrow> Inl e
      | Inr u \<Rightarrow>
          Inr \<lparr>TITLE = t, ADDR = ad, OPERATING_TIME = ot, URL = u,
               LA = la, LO = lo, DIST_KM = round3 d\<rparr>))))"

text \<open>\<open>(radius_km is not None) and (d > radius_km)\<close>\<close>

definition beyond_radius :: "real \<Rightarrow> pyval \<Rightarrow> error + bool" where
  "beyond_radius d radius_km = (if radius_km = PNone then Inr False else float_gt d radius_km)"

text \<open>The body of the loop of \<open>nearest\<close> for one row: skipped, a candidate, or an error.\<close>

definition candidate ::
  "libm \<Rightarrow> builtins \<Rightarrow> real \<Rightarrow> real \<Rightarrow> pyval \<Rightarrow> pyval \<Rightarrow> error + recommendation option" where
  "candidate M B lat lon radius_km r =
     (case r of
        PDict kv \<Rightarrow>
          (case safe_float B (dget kv ''LA'') of
             None \<Rightarrow> Inr None
           | Some la \<Rightarrow>
               (case safe_float B (dget kv ''LO'') of
                  None \<Rightarrow> Inr None
                | Some lo \<Rightarrow>
                    (case haversine_km M lat lon la lo of
                       Inl e \<Rightarrow> Inl e
                     | Inr d \<Rightarrow>
                         (case beyond_radius d radius_km of
                            Inl e \<Rightarrow> Inl e
                          | Inr far \<Rightarrow>
                              (if far then Inr None
                               else (case make_candidate kv la lo d of
                                       Inl e \<Rightarrow> Inl e
                                     | Inr c \<Rightarrow> Inr (Some c)))))))
      | PNone \<Rightarrow> Inl AttributeError
      | PBool b \<Rightarrow> Inl AttributeError
      | PInt i \<Rightarrow> Inl AttributeError
      | PFloat f \<Rightarrow> Inl AttributeError
      | PStr s \<Rightarrow> Inl AttributeError
      | PTuple xs \<Rightarrow> Inl AttributeError
      | PList xs \<Rightarrow> Inl AttributeError)"

fun candidates ::
  "libm \<Rightarrow> builtins \<Rightarrow> real \<Rightarrow> real \<Rightarrow> pyval \<Rightarrow> pyval list \<Rightarrow> error + recommendation list" where
  "candidates M B lat lon radius_km [] = Inr []"
| "candidates M B lat lon radius_km (r # rows) =
     (case candidate M B lat lon radius_km r of
        Inl e \<Rightarrow> Inl e
      | Inr None \<Rightarrow> candidates M B lat lon radius_km rows
      | Inr (Some c) \<Rightarrow>
          (case candidates M B lat lon radius_km rows of
             Inl e \<Rightarrow> Inl e
           | Inr cs \<Rightarrow> Inr (c # cs)))"

text \<open>\<open>list.sort(key=...)\<close> is stable, as the insertion sort \<open>sort_key\<close> is.\<close>

definition nearest ::
  "libm \<Rightarrow> builtins \<Rightarrow> pyval list \<Rightarrow> real \<Rightarrow> real \<Rightarrow> int \<Rightarrow> pyval \<Rightarrow> error + recommendation list" where
  "nearest M B rows lat lon topn radius_km =
     (case candidates M B lat lon radius_km rows of
        Inl e \<Rightarrow> Inl e
      | Inr cs \<Rightarrow> Inr (take (nat (max 1 topn)) (sort_key DIST_KM cs)))"

subsection \<open>Predicates used to state the ranking properties\<close>

text \<open>
  The candidates of a catalog in catalog order: the rows for which the loop body of
  \<open>nearest\<close> appends a dictionary.
\<close>

definition passed ::
  "libm \<Rightarrow> builtins \<Rightarrow> real \<Rightarrow> real \<Rightarrow> pyval \<Rightarrow> pyval list \<Rightarrow> recommendation list" where
  "passed M B lat lon radius_km rows =
     List.map_filter
       (\<lambda>r. case candidate M B lat lon radius_km r of Inl e \<Rightarrow> None | Inr None \<Rightarrow> None | Inr (Some c) \<Rightarrow> Some c) rows"

text \<open>The radius as a number, when \<open>radius_km\<close> is one.\<close>

fun radius_value :: "pyval \<Rightarrow> real option" where
  "radius_value (PFloat f) = Some f"
| "radius_value (PInt i) = Some (real_of_int i)"
| "radius_value (PBool b) = Some (if b then 1 else 0)"
| "radius_value PNone = None"
| "radius_value (PStr s) = None"
| "radius_value (PTuple xs) = None"
| "radius_value (PList xs) = None"
| "radius_value (PDict kv) = None"

text \<open>A coordinate axis that is missing, does not convert to a float, or is exactly 0.\<close>

definition coord_absent :: "builtins \<Rightarrow> pyval \<Rightarrow> bool" where
  "coord_absent B x = (x = PNone \<or> (case py_float B x of Inl e \<Rightarrow> True | Inr f \<Rightarrow> f = 0))"

section \<open>Pipeline state\<close>

text \<open>
  The context threaded through the stages is a dictionary from keys to values; every
  stage copies it (\<open>dict(state)\<close>) and returns the copy with its own keys written.
\<close>

type_synonym state = "string \<Rightarrow> pyval option"

text \<open>\<open>state.get(k)\<close> and \<open>state.get(k, d)\<close>\<close>

definition sget :: "state \<Rightarrow> string \<Rightarrow> pyval" where
  "sget s k = (case s k of None \<Rightarrow> PNone | Some v \<Rightarrow> v)"

definition sget_default :: "state \<Rightarrow> string \<Rightarrow> pyval \<Rightarrow> pyval" where
  "sget_default s k d = (case s k of None \<Rightarrow> d | Some v \<Rightarrow> v)"

text \<open>\<open>for r in v\<close>: the elements a value yields, \<open>TypeError\<close> when it is not iterable.\<close>

fun py_iter :: "pyval \<Rightarrow> error + pyval list" where
  "py_iter (PList xs) = Inr xs"
| "py_iter (PTuple xs) = Inr xs"
| "py_iter (PStr s) = Inr (map (\<lambda>c. PStr [c]) s)"
| "py_iter (PDict kv) = Inr (map (\<lambda>p. PStr (fst p)) kv)"
| "py_iter PNone = Inl TypeError"
| "py_iter (PBool b) = Inl TypeError"
| "py_iter (PInt i) = Inl TypeError"
| "py_iter (PFloat f) = Inl TypeError"

text \<open>A comprehension or loop whose body can raise: the first error ends it.\<close>

fun map_err :: "('a \<Rightarrow> error + 'b) \<Rightarrow> 'a list \<Rightarrow> error + 'b list" where
  "map_err f [] = Inr []"
| "map_err f (x # xs) =
     (case f x of
        Inl e \<Rightarrow> Inl e
      | Inr y \<Rightarrow> (case map_err f xs of Inl e \<Rightarrow> Inl e | Inr ys \<Rightarrow> Inr (y # ys)))"

text \<open>\<open>"\n".join(lines)\<close>\<close>

fun join_lines :: "string list \<Rightarrow> string" where
  "join_lines [] = []"
| "join_lines [l] = l"
| "join_lines (l # m # ls) = l @ [CHR 0x0A] @ join_lines (m # ls)"

section \<open>services/geo.py: origin helpers\<close>

definition validate_coords :: "builtins \<Rightarrow> pyval \<Rightarrow> pyval \<Rightarrow> bool" where
  "validate_coords B lat lon =
     (case py_float B lat of
        Inl e \<Rightarrow> False
      | Inr lat_f \<Rightarrow>
          (case py_float B lon of
             Inl e \<Rightarrow> False
           | Inr lon_f \<Rightarrow> (- 90 \<le> lat_f \<and> lat_f \<le> 90) \<and> (- 180 \<le> lon_f \<and> lon_f \<le> 180)))"

text \<open>The keys of \<open>PRESET_COORDS\<close>, as UTF-8 bytes.\<close>

definition KEY_SICHEONG :: string where
  "KEY_SICHEONG =
     [CHR 0xEC, CHR 0x8B, CHR 0x9C, CHR 0xEC, CHR 0xB2, CHR 0xAD]"

definition KEY_GWANGHWAMUN :: string where
  "KEY_GWANGHWAMUN =
     [CHR 0xEA, CHR 0xB4, CHR 0x91, CHR 0xED, CHR 0x99, CHR 0x94, CHR 0xEB, CHR 0xAC,
      CHR 0xB8]"

definition KEY_NAMSAN :: string where
  "KEY_NAMSAN =
     [CHR 0xEB, CHR 0x82, CHR 0xA8, CHR 0xEC, CHR 0x82, CHR 0xB0]"

definition KEY_JAMSIL :: string where
  "KEY_JAMSIL =
     [CHR 0xEC, CHR 0x9E, CHR 0xA0, CHR 0xEC, CHR 0x8B, CHR 0xA4]"

definition KEY_GANGNAM :: string where
  "KEY_GANGNAM =
     [CHR 0xEA, CHR 0xB0, CHR 0x95, CHR 0xEB, CHR 0x82, CHR 0xA8]"

definition KEY_YEOUIDO :: string where
  "KEY_YEOUIDO =
     [CHR 0xEC, CHR 0x97, CHR 0xAC, CHR 0xEC, CHR 0x9D, CHR 0x98, CHR 0xEB, CHR 0x8F,
      CHR 0x84]"

definition PRESET_COORDS :: "(string \<times> real \<times> real) list" where
  "PRESET_COORDS =
     [(KEY_SICHEONG, 375663 / 10000, 1269779 / 10000),
      (KEY_GWANGHWAMUN, 375759 / 10000, 1269768 / 10000),
      (KEY_NAMSAN, 375512 / 10000, 1269882 / 10000),
      (KEY_JAMSIL, 375130 / 10000, 1271028 / 10000),
      (KEY_GANGNAM, 374979 / 10000, 1270276 / 10000),
      (KEY_YEOUIDO, 375219 / 10000, 1269244 / 10000)]"

definition PRESET_ALIASES :: "(string \<times> string) list" where
  "PRESET_ALIASES =
     [(''seoul city hall'', KEY_SICHEONG),
      (''city hall'', KEY_SICHEONG),
      (''gwanghwamun'', KEY_GWANGHWAMUN),
      (''namsan'', KEY_NAMSAN),
      (''jamsil'', KEY_JAMSIL),
      (''gangnam'', KEY_GANGNAM),
      (''yeouido'', KEY_YEOUIDO)]"

definition normalize_label :: "string \<Rightarrow> string" where
  "normalize_label label = lower (strip label)"

text \<open>A value that can be a dictionary key: lists and dictionaries cannot.\<close>

fun hashable :: "pyval \<Rightarrow> bool" where
  "hashable (PList xs) = False"
| "hashable (PDict kv) = False"
| "hashable (PTuple xs) = list_all hashable xs"
| "hashable PNone = True"
| "hashable (PBool b) = True"
| "hashable (PInt i) = True"
| "hashable (PFloat f) = True"
| "hashable (PStr s) = True"

definition get_preset_coord :: "pyval \<Rightarrow> error + (real \<times> real) option" where
  "get_preset_coord label =
     (if \<not> truthy label then Inr None
      else if \<not> hashable label then Inl TypeError
      else (case label of
              PStr l \<Rightarrow>
                (case map_of PRESET_COORDS l of
                   Some c \<Rightarrow> Inr (Some c)
                 | None \<Rightarrow>
                     (case (case map_of PRESET_ALIASES (normalize_label l) of
                              None \<Rightarrow> None
                            | Some mapped \<Rightarrow> map_of PRESET_COORDS mapped) of
                        Some c \<Rightarrow> Inr (Some c)
                      | None \<Rightarrow> Inr (map_of PRESET_COORDS (strip l))))
            | PNone \<Rightarrow> Inl AttributeError
            | PBool b \<Rightarrow> Inl AttributeError
            | PInt i \<Rightarrow> Inl AttributeError
            | PFloat f \<Rightarrow> Inl AttributeError
            | PTuple xs \<Rightarrow> Inl AttributeError
            | PList xs \<Rightarrow> Inl AttributeError
            | PDict kv \<Rightarrow> Inl AttributeError))"

section \<open>agents/nodes.py\<close>

text \<open>UTF-8 bytes of the default label of device mode.\<close>

definition LABEL_MY_LOCATION :: string where
  "LABEL_MY_LOCATION =
     [CHR 0xEB, CHR 0x82, CHR 0xB4, CHR 0x20, CHR 0xEC, CHR 0x9C, CHR 0x84, CHR 0xEC,
      CHR 0xB9, CHR 0x98]"

text \<open>UTF-8 bytes of the default label of manual mode.\<close>

definition LABEL_USER_DEFINED :: string where
  "LABEL_USER_DEFINED =
     [CHR 0xEC, CHR 0x82, CHR 0xAC, CHR 0xEC, CHR 0x9A, CHR 0xA9, CHR 0xEC, CHR 0x9E,
      CHR 0x90, CHR 0x20, CHR 0xEC, CHR 0xA7, CHR 0x80, CHR 0xEC, CHR 0xA0, CHR 0x95]"

text \<open>UTF-8 bytes of the value of a setting whose environment variable is missing.\<close>

definition ENV_MISSING :: string where
  "ENV_MISSING =
     [CHR 0xED, CHR 0x99, CHR 0x98, CHR 0xEA, CHR 0xB2, CHR 0xBD, CHR 0xEB, CHR 0xB3,
      CHR 0x80, CHR 0xEC, CHR 0x88, CHR 0x98, CHR 0x20, CHR 0xEC, CHR 0x97, CHR 0x86,
      CHR 0xEC, CHR 0x9D, CHR 0x8C]"

text \<open>UTF-8 bytes of the title shown for a recommendation without one.\<close>

definition NO_TITLE :: string where
  "NO_TITLE =
     [CHR 0x28, CHR 0xEC, CHR 0xA0, CHR 0x9C, CHR 0xEB, CHR 0xAA, CHR 0xA9, CHR 0x20,
      CHR 0xEC, CHR 0x97, CHR 0x86, CHR 0xEC, CHR 0x9D, CHR 0x8C, CHR 0x29]"

text \<open>UTF-8 bytes of the fixed answer for an empty list of recommendations.\<close>

definition NO_RESULT_ANSWER :: string where
  "NO_RESULT_ANSWER =
     [CHR 0xEC, CHR 0xB6, CHR 0x94, CHR 0xEC, CHR 0xB2, CHR 0x9C, CHR 0x20, CHR 0xEA,
      CHR 0xB2, CHR 0xB0, CHR 0xEA, CHR 0xB3, CHR 0xBC, CHR 0xEA, CHR 0xB0, CHR 0x80,
      CHR 0x20, CHR 0xEC, CHR 0x97, CHR 0x86, CHR 0xEC, CHR 0x96, CHR 0xB4, CHR 0x20,
      CHR 0xEB, CHR 0x8B, CHR 0xB5, CHR 0xEB, CHR 0xB3, CHR 0x80, CHR 0xEC, CHR 0x9D,
      CHR 0x84, CHR 0x20, CHR 0xEC, CHR 0x83, CHR 0x9D, CHR 0xEC, CHR 0x84, CHR 0xB1,
      CHR 0xED, CHR 0x95, CHR 0xA0, CHR 0x20, CHR 0xEC, CHR 0x88, CHR 0x98, CHR 0x20,
      CHR 0xEC, CHR 0x97, CHR 0x86, CHR 0xEC, CHR 0x8A, CHR 0xB5, CHR 0xEB, CHR 0x8B,
      CHR 0x88, CHR 0xEB, CHR 0x8B, CHR 0xA4, CHR 0x2E, CHR 0x20, CHR 0xEA, CHR 0xB8,
      CHR 0xB0, CHR 0xEC, CHR 0xA4, CHR 0x80, CHR 0x20, CHR 0xEC, CHR 0xA2, CHR 0x8C,
      CHR 0xED, CHR 0x91, CHR 0x9C, CHR 0x20, CHR 0xEB, CHR 0x98, CHR 0x90, CHR 0xEB,
      CHR 0x8A, CHR 0x94, CHR 0x20, CHR 0xEB, CHR 0xB0, CHR 0x98, CHR 0xEA, CHR 0xB2,
      CHR 0xBD, CHR 0x20, CHR 0xEC, CHR 0xA1, CHR 0xB0, CHR 0xEA, CHR 0xB1, CHR 0xB4,
      CHR 0xEC, CHR 0x9D, CHR 0x84, CHR 0x20, CHR 0xED, CHR 0x99, CHR 0x95, CHR 0xEC,
      CHR 0x9D, CHR 0xB8, CHR 0xED, CHR 0x95, CHR 0xB4, CHR 0x20, CHR 0xEC, CHR 0xA3,
      CHR 0xBC, CHR 0xEC, CHR 0x84, CHR 0xB8, CHR 0xEC, CHR 0x9A, CHR 0x94, CHR 0x2E]"

text \<open>UTF-8 bytes of the first line of the template answer.\<close>

definition ANSWER_HEADER :: string where
  "ANSWER_HEADER =
     [CHR 0xEC, CHR 0x95, CHR 0x84, CHR 0xEB, CHR 0x9E, CHR 0x98, CHR 0x20, CHR 0xEC,
      CHR 0xB6, CHR 0x94, CHR 0xEC, CHR 0xB2, CHR 0x9C, CHR 0x20, CHR 0xEA, CHR 0xB2,
      CHR 0xB0, CHR 0xEA, CHR 0xB3, CHR 0xBC, CHR 0xEB, CHR 0xA5, CHR 0xBC, CHR 0x20,
      CHR 0xEC, CHR 0xB0, CHR 0xB8, CHR 0xEA, CHR 0xB3, CHR 0xA0, CHR 0xED, CHR 0x95,
      CHR 0xB4, CHR 0x20, CHR 0xEC, CHR 0xA3, CHR 0xBC, CHR 0xEC, CHR 0x84, CHR 0xB8,
      CHR 0xEC, CHR 0x9A, CHR 0x94, CHR 0x3A]"

text \<open>UTF-8 bytes of the heading of the sources block.\<close>

definition SOURCES_HEADER :: string where
  "SOURCES_HEADER =
     [CHR 0x0A, CHR 0xEC, CHR 0xB0, CHR 0xB8, CHR 0xEA, CHR 0xB3, CHR 0xA0, CHR 0xED,
      CHR 0x95, CHR 0x9C, CHR 0x20, CHR 0xEB, CHR 0xAA, CHR 0x85, CHR 0xEC, CHR 0x86,
      CHR 0x8C, CHR 0xEC, CHR 0x99, CHR 0x80, CHR 0x20, CHR 0x55, CHR 0x52, CHR 0x4C,
      CHR 0x3A]"

text \<open>UTF-8 bytes of the separator of the fields of a template line.\<close>

definition MIDDOT :: string where
  "MIDDOT =
     [CHR 0x20, CHR 0xC2, CHR 0xB7, CHR 0x20]"

text \<open>UTF-8 bytes of the prefix of the opening hours.\<close>

definition OPERATING_PREFIX :: string where
  "OPERATING_PREFIX =
     [CHR 0xEC, CHR 0x9A, CHR 0xB4, CHR 0xEC, CHR 0x98, CHR 0x81, CHR 0xEC, CHR 0x8B,
      CHR 0x9C, CHR 0xEA, CHR 0xB0, CHR 0x84, CHR 0x20]"

text \<open>UTF-8 bytes of the map shown for an empty list of recommendations.\<close>

definition NO_RECS_HTML :: string where
  "NO_RECS_HTML =
     [CHR 0x3C, CHR 0x70, CHR 0x20, CHR 0x73, CHR 0x74, CHR 0x79, CHR 0x6C, CHR 0x65,
      CHR 0x3D, CHR 0x27, CHR 0x63, CHR 0x6F, CHR 0x6C, CHR 0x6F, CHR 0x72, CHR 0x3A,
      CHR 0x67, CHR 0x72, CHR 0x61, CHR 0x79, CHR 0x27, CHR 0x3E, CHR 0xED, CHR 0x91,
      CHR 0x9C, CHR 0xEC, CHR 0x8B, CHR 0x9C, CHR 0xED, CHR 0x95, CHR 0xA0, CHR 0x20,
      CHR 0xEC, CHR 0xB6, CHR 0x94, CHR 0xEC, CHR 0xB2, CHR 0x9C, CHR 0x20, CHR 0xEA,
      CHR 0xB2, CHR 0xB0, CHR 0xEA, CHR 0xB3, CHR 0xBC, CHR 0xEA, CHR 0xB0, CHR 0x80,
      CHR 0x20, CHR 0xEC, CHR 0x97, CHR 0x86, CHR 0xEC, CHR 0x8A, CHR 0xB5, CHR 0xEB,
      CHR 0x8B, CHR 0x88, CHR 0xEB, CHR 0x8B, CHR 0xA4, CHR 0x2E, CHR 0x3C, CHR 0x2F,
      CHR 0x70, CHR 0x3E]"

text \<open>
  What the stages reach outside the program: the interpreter's parsers, the map renderer
  (provider, recommendations, centre; it returns the HTML, an error text when rendering
  raised), the settings, the chat-completions request (question and recommendations;
  \<open>None\<close> when the request or the decoding of its response raised), the formatting of a
  value inside an f-string, and the C library behind the \<open>math\<close> module.
\<close>

record settings =
  AOAI_ENDPOINT :: string
  AOAI_API_KEY :: string
  AOAI_DEPLOYMENT :: string

record env =
  bi :: builtins
  render :: "string \<Rightarrow> pyval \<Rightarrow> pyval \<Rightarrow> string"
  conf :: settings
  remote :: "pyval \<Rightarrow> pyval list \<Rightarrow> pyval option"
  fmt :: "pyval \<Rightarrow> string"
  lm :: libm

definition is_dict :: "pyval \<Rightarrow> bool" where
  "is_dict v = (case v of PDict kv \<Rightarrow> True | _ \<Rightarrow> False)"

text \<open>
  \<open>_format_sources(recs)\<close> with its default limit 5, on the elements of \<open>recs\<close>.
\<close>

definition format_source_line :: "env \<Rightarrow> pyval \<Rightarrow> error + string" where
  "format_source_line E r =
     (case r of
        PDict kv \<Rightarrow>
          (let title = py_or (dget kv ''TITLE'') (PStr NO_TITLE);
               url = py_or (dget kv ''URL'') (PStr [])
           in Inr (strip (''- '' @ fmt E title @ '' ''
                          @ (if truthy url then ''('' @ fmt E url @ '')'' else []))))
      | _ \<Rightarrow> Inl AttributeError)"

definition format_sources :: "env \<Rightarrow> pyval list \<Rightarrow> error + string" where
  "format_sources E recs =
     (case map_err (format_source_line E) (take 5 recs) of
        Inl e \<Rightarrow> Inl e
      | Inr ls \<Rightarrow> Inr (join_lines ls))"

text \<open>
  \<open>_llm_answer_azure(question, recs)\<close>: the number of requests sent and the result.
  Every exception inside is caught and gives \<open>None\<close>; reading a field of a recommendation
  that is no dictionary raises before the request is sent.
\<close>

definition llm_answer_azure :: "env \<Rightarrow> pyval \<Rightarrow> pyval \<Rightarrow> nat \<times> pyval" where
  "llm_answer_azure E question recs =
     (if AOAI_ENDPOINT (conf E) = ENV_MISSING \<or> AOAI_API_KEY (conf E) = ENV_MISSING
         \<or> AOAI_DEPLOYMENT (conf E) = ENV_MISSING
      then (0, PNone)
      else (case py_iter recs of
              Inl e \<Rightarrow> (0, PNone)
            | Inr rs \<Rightarrow>
                (if list_all is_dict rs
                 then (1, case remote E question rs of None \<Rightarrow> PNone | Some content \<Rightarrow> content)
                 else (0, PNone))))"

text \<open>\<open>agent_c\<close>\<close>

definition rec_dict :: "recommendation \<Rightarrow> pyval" where
  "rec_dict c =
     PDict [(''TITLE'', PStr (TITLE c)), (''ADDR'', PStr (ADDR c)),
            (''OPERATING_TIME'', PStr (OPERATING_TIME c)), (''URL'', PStr (URL c)),
            (''LA'', PFloat (LA c)), (''LO'', PFloat (LO c)), (''DIST_KM'', PFloat (DIST_KM c))]"

text \<open>\<open>if isinstance(radius_km, str) and radius_km.strip() == "": radius_km = None\<close>\<close>

definition blank_radius_to_none :: "pyval \<Rightarrow> pyval" where
  "blank_radius_to_none radius_km =
     (case radius_km of PStr s \<Rightarrow> (if strip s = [] then PNone else radius_km) | _ \<Rightarrow> radius_km)"

text \<open>\<open>out.setdefault(k, v)\<close>\<close>

definition setdefault :: "state \<Rightarrow> string \<Rightarrow> pyval \<Rightarrow> state" where
  "setdefault s k v = (case s k of None \<Rightarrow> s(k \<mapsto> v) | Some w \<Rightarrow> s)"

definition agent_c :: "env \<Rightarrow> state \<Rightarrow> error + state" where
  "agent_c E state =
     (let rows = py_or (sget state ''rows'') (PList [])
      in case py_float (bi E) (sget state ''lat'') of
           Inl e \<Rightarrow> Inl e
         | Inr lat \<Rightarrow>
        (case py_float (bi E) (sget state ''lon'') of
           Inl e \<Rightarrow> Inl e
         | Inr lon \<Rightarrow>
        (case py_int (bi E) (sget_default state ''topn'' (PInt 5)) of
           Inl e \<Rightarrow> Inl e
         | Inr topn \<Rightarrow>
        (let radius_km = blank_radius_to_none (sget_default state ''radius_km'' PNone)
         in case py_iter rows of
              Inl e \<Rightarrow> Inl e
            | Inr rs \<Rightarrow>
           (case nearest (lm E) (bi E) rs lat lon topn radius_km of
              Inl e \<Rightarrow> Inl e
            | Inr recs \<Rightarrow>
                Inr (setdefault (state(''recommendations'' \<mapsto> PList (map rec_dict recs)))
                       ''center'' (PTuple [PFloat lat, PFloat lon])))))))"

text \<open>\<open>agent_e\<close>\<close>

definition map_center :: "env \<Rightarrow> state \<Rightarrow> pyval" where
  "map_center E state =
     (let center = sget state ''center''
      in if \<not> truthy center \<and> state ''lat'' \<noteq> None \<and> state ''lon'' \<noteq> None
         then (case py_float (bi E) (sget state ''lat'') of
                 Inl e \<Rightarrow> PNone
               | Inr la \<Rightarrow>
                   (case py_float (bi E) (sget state ''lon'') of
                      Inl e \<Rightarrow> PNone
                    | Inr lo \<Rightarrow> PTuple [PFloat la, PFloat lo]))
         else center)"

definition agent_e :: "env \<Rightarrow> state \<Rightarrow> error + state" where
  "agent_e E state =
     (let recs = py_or (sget state ''recommendations'') (PList [])
      in case py_or (sget state ''map_provider'') (PStr ''leaflet'') of
           PStr p \<Rightarrow>
             (let provider = lower p; center = map_center E state
              in if \<not> truthy recs then Inr (state(''map_html'' \<mapsto> PStr NO_RECS_HTML))
                 else Inr (state(''map_html'' \<mapsto> PStr (render E provider recs center))))
         | _ \<Rightarrow> Inl AttributeError)"

text \<open>\<open>agent_d\<close>: the template of the second tier, the sources, and the stage.\<close>

definition template_line :: "env \<Rightarrow> pyval \<Rightarrow> error + string" where
  "template_line E r =
     (case r of
        PDict kv \<Rightarrow>
          (let t = py_or (dget kv ''TITLE'') (PStr NO_TITLE);
               d = (case map_of kv ''DIST_KM'' of None \<Rightarrow> PStr ''-'' | Some v \<Rightarrow> v);
               addr = py_or (dget kv ''ADDR'') (PStr ''-'');
               op = py_or (dget kv ''OPERATING_TIME'') (PStr ''-'');
               url = py_or (dget kv ''URL'') (PStr [])
           in Inr (''- '' @ fmt E t @ MIDDOT @ fmt E d @ ''km'' @ MIDDOT @ fmt E addr @ MIDDOT
                   @ OPERATING_PREFIX @ fmt E op
                   @ (if truthy url then MIDDOT @ fmt E url else [])))
      | _ \<Rightarrow> Inl AttributeError)"

definition template_answer :: "env \<Rightarrow> pyval \<Rightarrow> error + string" where
  "template_answer E recs =
     (case py_iter recs of
        Inl e \<Rightarrow> Inl e
      | Inr rs \<Rightarrow>
          (case map_err (template_line E) rs of
             Inl e \<Rightarrow> Inl e
           | Inr ls \<Rightarrow>
               (case format_sources E rs of
                  Inl e \<Rightarrow> Inl e
                | Inr src \<Rightarrow> Inr (join_lines ([ANSWER_HEADER] @ ls @ [SOURCES_HEADER, src])))))"

definition source_entry :: "pyval \<Rightarrow> error + pyval" where
  "source_entry r =
     (case r of
        PDict kv \<Rightarrow> Inr (PDict [(''TITLE'', dget kv ''TITLE''), (''URL'', dget kv ''URL'')])
      | _ \<Rightarrow> Inl AttributeError)"

text \<open>\<open>[{"TITLE": r.get("TITLE"), "URL": r.get("URL")} for r in recs]\<close>\<close>

definition sources_of :: "pyval \<Rightarrow> error + pyval" where
  "sources_of recs =
     (case py_iter recs of
        Inl e \<Rightarrow> Inl e
      | Inr rs \<Rightarrow> (case map_err source_entry rs of Inl e \<Rightarrow> Inl e | Inr src \<Rightarrow> Inr (PList src)))"

text \<open>The last three statements of \<open>agent_d\<close>.\<close>

definition write_answer :: "state \<Rightarrow> pyval \<Rightarrow> pyval \<Rightarrow> error + state" where
  "write_answer state answer recs =
     (case sources_of recs of
        Inl e \<Rightarrow> Inl e
      | Inr src \<Rightarrow> Inr (state(''answer'' \<mapsto> answer, ''sources'' \<mapsto> src)))"

text \<open>The stage returns the number of requests it sent with its result.\<close>

definition agent_d :: "env \<Rightarrow> state \<Rightarrow> nat \<times> (error + state)" where
  "agent_d E state =
     (let question = py_or (sget state ''question'') (PStr []);
          recs = py_or (sget state ''recommendations'') (PList [])
      in if \<not> truthy recs then (0, write_answer state (PStr NO_RESULT_ANSWER) recs)
         else (let sent_and_content = llm_answer_azure E question recs;
                   answer = py_or (snd sent_and_content) (PStr [])
               in if truthy answer then (fst sent_and_content, write_answer state answer recs)
                  else (case template_answer E recs of
                          Inl e \<Rightarrow> (fst sent_and_content, Inl e)
                        | Inr templ \<Rightarrow>
                            (fst sent_and_content, write_answer state (PStr templ) recs))))"

text \<open>\<open>origin_resolver_node\<close>: the two modes give the coordinate and the label.\<close>

definition resolve_device :: "builtins \<Rightarrow> state \<Rightarrow> error + pyval \<times> pyval \<times> pyval" where
  "resolve_device B out =
     (let lat = sget out ''origin_lat''; lon = sget out ''origin_lon''
      in if lat = PNone \<or> lon = PNone \<or> \<not> validate_coords B lat lon
         then Inl (ValueError Device_coords_invalid)
         else Inr (lat, lon, py_or (sget out ''origin_label'') (PStr LABEL_MY_LOCATION)))"

definition resolve_manual :: "builtins \<Rightarrow> state \<Rightarrow> error + pyval \<times> pyval \<times> pyval" where
  "resolve_manual B out =
     (let label = py_or (sget out ''origin_label'') (PStr [])
      in case (if truthy label then get_preset_coord label else Inr None) of
           Inl e \<Rightarrow> Inl e
         | Inr (Some coords) \<Rightarrow> Inr (PFloat (fst coords), PFloat (snd coords), label)
         | Inr None \<Rightarrow>
             (let lat = sget out ''origin_lat''; lon = sget out ''origin_lon''
              in if lat = PNone \<or> lon = PNone \<or> \<not> validate_coords B lat lon
                 then Inl (ValueError Manual_coords_invalid)
                 else Inr (lat, lon, py_or label (PStr LABEL_USER_DEFINED))))"

text \<open>The defaults: \<open>radius_km\<close> and \<open>topn\<close> as the resolver writes them.\<close>

definition resolved_radius :: "builtins \<Rightarrow> state \<Rightarrow> pyval" where
  "resolved_radius B out =
     (let radius_km = sget_default out ''radius_km'' (PFloat 3)
      in if radius_km = PNone then PNone
         else (case py_float B radius_km of Inl e \<Rightarrow> PNone | Inr f \<Rightarrow> PFloat f))"

definition resolved_topn :: "builtins \<Rightarrow> state \<Rightarrow> pyval" where
  "resolved_topn B out =
     (case py_int B (sget_default out ''topn'' (PInt 5)) of Inl e \<Rightarrow> PInt 5 | Inr n \<Rightarrow> PInt n)"

definition origin_resolver_node :: "builtins \<Rightarrow> state \<Rightarrow> error + state" where
  "origin_resolver_node B state =
     (case or_empty_strip (sget state ''origin_mode'') of
        Inl e \<Rightarrow> Inl e
      | Inr m \<Rightarrow>
          (let mode = lower m
           in if mode \<noteq> ''device'' \<and> mode \<noteq> ''manual''
              then Inl (ValueError Mode_not_device_or_manual)
              else (case (if mode = ''device'' then resolve_device B state
                          else resolve_manual B state) of
                      Inl e \<Rightarrow> Inl e
                    | Inr (lat, lon, origin_label) \<Rightarrow>
                        (case py_float B lat of
                           Inl e \<Rightarrow> Inl e
                         | Inr lat_f \<Rightarrow>
                             (case py_float B lon of
                                Inl e \<Rightarrow> Inl e
                              | Inr lon_f \<Rightarrow>
                                  Inr (state(''origin_mode'' \<mapsto> PStr mode,
                                             ''origin_label'' \<mapsto> origin_label,
                                             ''origin_lat'' \<mapsto> PFloat lat_f,
                                             ''origin_lon'' \<mapsto> PFloat lon_f,
                                             ''lat'' \<mapsto> PFloat lat_f,
                                             ''lon'' \<mapsto> PFloat lon_f,
                                             ''radius_km'' \<mapsto> resolved_radius B state,
                                             ''topn'' \<mapsto> resolved_topn B state)))))))"

section \<open>agents/graph.py\<close>

definition ensure_origin_valid :: "builtins \<Rightarrow> state \<Rightarrow> error + unit" where
  "ensure_origin_valid B state =
     (case or_empty_strip (sget state ''origin_mode'') of
        Inl e \<Rightarrow> Inl e
      | Inr m \<Rightarrow>
          (if lower m \<noteq> ''device'' \<and> lower m \<noteq> ''manual''
           then Inl (ValueError Mode_not_device_or_manual)
           else (case py_float B (sget state ''origin_lat'') of
                   Inl e \<Rightarrow> Inl (ValueError Origin_not_numeric)
                 | Inr lat \<Rightarrow>
                (case py_float B (sget state ''origin_lon'') of
                   Inl e \<Rightarrow> Inl (ValueError Origin_not_numeric)
                 | Inr lon \<Rightarrow>
                (if \<not> ((- 90 \<le> lat \<and> lat \<le> 90) \<and> (- 180 \<le> lon \<and> lon \<le> 180))
                 then Inl (ValueError Coords_out_of_range)
                 else (case (let rk = sget_default state ''radius_km'' PNone
                             in if rk \<noteq> PNone \<and> rk \<noteq> PStr []
                                then (case py_float B rk of
                                        Inl e \<Rightarrow> Inl (ValueError Radius_not_numeric)
                                      | Inr rk_val \<Rightarrow>
                                          (if rk_val < 0 then Inl (ValueError Radius_negative)
                                           else Inr ()))
                                else Inr ()) of
                         Inl e \<Rightarrow> Inl e
                       | Inr u \<Rightarrow>
                           (case py_int B (sget_default state ''topn'' (PInt 5)) of
                              Inl e \<Rightarrow> Inl (ValueError Topn_not_integer)
                            | Inr topn \<Rightarrow>
                                (if topn < 1 then Inl (ValueError Topn_below_one)
                                 else Inr ()))))))))"

text \<open>
  The compiled graphs are linear: \<open>invoke\<close> runs the nodes in the order of the edges, each
  on the state the one before returned, and an exception of a node ends the run. The
  first component is the list of the nodes that were entered.
\<close>

datatype node = AgentO_OriginResolver | AgentC_Recommender | AgentE_Map | AgentD_Answer

fun run_node :: "env \<Rightarrow> node \<Rightarrow> state \<Rightarrow> error + state" where
  "run_node E AgentO_OriginResolver s = origin_resolver_node (bi E) s"
| "run_node E AgentC_Recommender s = agent_c E s"
| "run_node E AgentE_Map s = agent_e E s"
| "run_node E AgentD_Answer s = snd (agent_d E s)"

fun invoke :: "env \<Rightarrow> node list \<Rightarrow> state \<Rightarrow> node list \<times> (error + state)" where
  "invoke E [] s = ([], Inr s)"
| "invoke E (n # ns) s =
     (case run_node E n s of
        Inl e \<Rightarrow> ([n], Inl e)
      | Inr s' \<Rightarrow> (let r = invoke E ns s' in (n # fst r, snd r)))"

definition build_graph_full :: "node list" where
  "build_graph_full = [AgentO_OriginResolver, AgentC_Recommender, AgentE_Map, AgentD_Answer]"

definition build_graph_ced :: "node list" where
  "build_graph_ced = [AgentC_Recommender, AgentE_Map, AgentD_Answer]"

text \<open>The state \<open>run_o_to_d\<close> builds from its arguments.\<close>

definition o_to_d_state ::
  "builtins \<Rightarrow> pyval \<Rightarrow> pyval \<Rightarrow> pyval \<Rightarrow> pyval \<Rightarrow> pyval \<Rightarrow> pyval \<Rightarrow> pyval \<Rightarrow> pyval \<Rightarrow> pyval
     \<Rightarrow> error + state" where
  "o_to_d_state B rows origin_mode origin_lat origin_lon origin_label question topn radius_km
      map_provider =
     (case py_float B origin_lat of
        Inl e \<Rightarrow> Inl e
      | Inr lat \<Rightarrow>
     (case py_float B origin_lon of
        Inl e \<Rightarrow> Inl e
      | Inr lon \<Rightarrow>
     (case py_int B topn of
        Inl e \<Rightarrow> Inl e
      | Inr n \<Rightarrow>
          (let state = [''rows'' \<mapsto> rows, ''origin_mode'' \<mapsto> origin_mode,
                        ''origin_lat'' \<mapsto> PFloat lat, ''origin_lon'' \<mapsto> PFloat lon,
                        ''origin_label'' \<mapsto> origin_label, ''topn'' \<mapsto> PInt n,
                        ''radius_km'' \<mapsto> radius_km,
                        ''question'' \<mapsto> py_or question (PStr [])]
           in Inr (if truthy map_provider then state(''map_provider'' \<mapsto> map_provider)
                   else state)))))"

definition run_o_to_d ::
  "env \<Rightarrow> pyval \<Rightarrow> pyval \<Rightarrow> pyval \<Rightarrow> pyval \<Rightarrow> pyval \<Rightarrow> pyval \<Rightarrow> pyval \<Rightarrow> pyval \<Rightarrow> pyval
     \<Rightarrow> node list \<times> (error + state)" where
  "run_o_to_d E rows origin_mode origin_lat origin_lon origin_label question topn radius_km
      map_provider =
     (case o_to_d_state (bi E) rows origin_mode origin_lat origin_lon origin_label question
             topn radius_km map_provider of
        Inl e \<Rightarrow> ([], Inl e)
      | Inr state \<Rightarrow>
          (case ensure_origin_valid (bi E) state of
             Inl e \<Rightarrow> ([], Inl e)
           | Inr u \<Rightarrow> invoke E build_graph_full state))"

section \<open>services/rag.py\<close>

text \<open>
  The index is the module's global \<open>_INDEX\<close>; \<open>build_index\<close> returns the index it
  stores and \<open>search\<close> reads the index it is given. An embedder is known to the index
  only by \<open>encode_query\<close>, which can raise (\<open>RequestError\<close>, a failed request of the
  remote backend).
  The embeddings are the rows of a numpy array. What \<open>build_index\<close> and \<open>search\<close> reach
  outside the program is taken as parameters: \<open>str(v)\<close>, \<open>get_embedder\<close> (it returns the
  embedder and the document vectors, whichever backend it chose) and \<open>numpy.argsort\<close>.
\<close>

type_synonym embedder = "string \<Rightarrow> error + real list"

record doc =
  doc_id :: nat
  doc_title :: string
  doc_url :: string
  doc_text :: string
  doc_meta :: "(string \<times> pyval) list"

record index =
  docs :: "doc list"
  embeddings :: "real list list option"
  embedder :: "embedder option"

record hit =
  hit_TITLE :: string
  hit_URL :: string
  SNIPPET :: string
  SCORE :: real

record rag_env =
  to_str :: "pyval \<Rightarrow> string"
  get_embedder :: "string list \<Rightarrow> embedder \<times> real list list"

text \<open>\<open>sep.join(parts)\<close>\<close>

fun py_join :: "string \<Rightarrow> string list \<Rightarrow> string" where
  "py_join sep [] = []"
| "py_join sep [p] = p"
| "py_join sep (p # q # ps) = p @ sep @ py_join sep (q # ps)"

definition CONCAT_KEYS :: "string list" where
  "CONCAT_KEYS = [''TITLE'', ''CONTENTS'', ''OPERATING_TIME'', ''ENTR_FEE'', ''SUBWAY'', ''BUS'',
                  ''PARKING_INFO'', ''ADDR'', ''URL'']"

definition concat_fields :: "rag_env \<Rightarrow> (string \<times> pyval) list \<Rightarrow> string" where
  "concat_fields G row =
     py_join '' | '' (map (to_str G) (filter truthy (map (dget row) CONCAT_KEYS)))"

text \<open>UTF-8 bytes of the ellipsis that marks a truncated snippet.\<close>

definition ELLIPSIS :: string where
  "ELLIPSIS = [CHR 0xE2, CHR 0x80, CHR 0xA6]"

definition make_snippet :: "string \<Rightarrow> string" where
  "make_snippet text_in =
     (let s = strip (map (\<lambda>c. if c = CHR 0x0A then CHR '' '' else c) text_in)
      in take 160 s @ (if length s > 160 then ELLIPSIS else []))"

definition make_doc :: "rag_env \<Rightarrow> nat \<times> pyval \<Rightarrow> error + doc" where
  "make_doc G ir =
     (case snd ir of
        PDict r \<Rightarrow>
          (case or_empty_strip (dget r ''TITLE'') of
             Inl e \<Rightarrow> Inl e
           | Inr t \<Rightarrow>
               (case or_empty_strip (dget r ''URL'') of
                  Inl e \<Rightarrow> Inl e
                | Inr u \<Rightarrow>
                    Inr \<lparr>doc_id = fst ir, doc_title = t, doc_url = u, doc_text = concat_fields G r,
                         doc_meta = [(''addr'', dget r ''ADDR''),
                                     (''operating'', dget r ''OPERATING_TIME''),
                                     (''fee'', dget r ''ENTR_FEE'')]\<rparr>))
      | _ \<Rightarrow> Inl AttributeError)"

text \<open>\<open>np.array(doc_vecs, dtype=float)\<close>: rows of different lengths are refused.\<close>

definition np_array :: "real list list \<Rightarrow> error + real list list" where
  "np_array vecs =
     (if list_all (\<lambda>v. length v = length (hd vecs)) vecs then Inr vecs
      else Inl (ValueError Shape_mismatch))"

definition empty_index :: index where
  "empty_index = \<lparr>docs = [], embeddings = None, embedder = None\<rparr>"

definition build_index :: "rag_env \<Rightarrow> pyval list \<Rightarrow> error + index" where
  "build_index G rows =
     (if rows = [] then Inr empty_index
      else (case map_err (make_doc G) (zip [0..<length rows] rows) of
              Inl e \<Rightarrow> Inl e
            | Inr ds \<Rightarrow>
                (let chosen = get_embedder G (map doc_text ds)
                 in case np_array (snd chosen) of
                      Inl e \<Rightarrow> Inl e
                    | Inr em \<Rightarrow>
                        Inr \<lparr>docs = ds, embeddings = Some em, embedder = Some (fst chosen)\<rparr>)))"

text \<open>\<open>np.linalg.norm\<close> of a vector, and the product of the matrix with the query.\<close>

definition vec_norm :: "real list \<Rightarrow> real" where
  "vec_norm v = sqrt (sum_list (map (\<lambda>x. x * x) v))"

definition dot :: "real list \<Rightarrow> real list \<Rightarrow> real" where
  "dot u v = sum_list (map2 (*) u v)"

definition matvec :: "real list list \<Rightarrow> real list \<Rightarrow> error + real list" where
  "matvec doc_mat q_vec =
     (if list_all (\<lambda>row. length row = length q_vec) doc_mat
      then Inr (map (\<lambda>row. dot row q_vec) doc_mat)
      else Inl (ValueError Shape_mismatch))"

text \<open>
  The scores of \<open>search\<close>. A division by a zero norm raises nothing in numpy, and
  \<open>np.where\<close> puts 0 in its place.
\<close>

definition cosine_scores :: "real list list \<Rightarrow> real list \<Rightarrow> error + real list" where
  "cosine_scores doc_mat q_vec =
     (let doc_norms = map vec_norm doc_mat; q_norm = vec_norm q_vec
      in if q_norm = 0 then Inr (replicate (length doc_mat) 0)
         else (case matvec doc_mat q_vec of
                 Inl e \<Rightarrow> Inl e
               | Inr dots \<Rightarrow>
                   Inr (map2 (\<lambda>n d. if n > 0 then d / (n * q_norm) else 0) doc_norms dots)))"

text \<open>\<open>xs[:k]\<close>: a negative \<open>k\<close> drops the last \<open>-k\<close> elements.\<close>

definition py_take :: "int \<Rightarrow> 'a list \<Rightarrow> 'a list" where
  "py_take k xs = (if 0 \<le> k then take (nat k) xs else take (length xs - nat (- k)) xs)"

text \<open>\<open>np.argsort(-scores)[:k]\<close>\<close>

definition top_k :: "(real list \<Rightarrow> nat list) \<Rightarrow> real list \<Rightarrow> int \<Rightarrow> nat list" where
  "top_k argsort scores k = py_take k (argsort (map uminus scores))"

definition make_hit :: "doc list \<Rightarrow> real list \<Rightarrow> nat \<Rightarrow> error + hit" where
  "make_hit ds scores i =
     (if i < length ds \<and> i < length scores
      then Inr \<lparr>hit_TITLE = doc_title (ds ! i), hit_URL = doc_url (ds ! i),
                SNIPPET = make_snippet (doc_text (ds ! i)), SCORE = scores ! i\<rparr>
      else Inl IndexError)"

definition search ::
  "(real list \<Rightarrow> nat list) \<Rightarrow> index \<Rightarrow> string \<Rightarrow> int \<Rightarrow> error + hit list" where
  "search argsort idx query k =
     (if query = [] \<or> docs idx = [] then Inr []
      else (case embeddings idx of
              None \<Rightarrow> Inr []
            | Some doc_mat \<Rightarrow>
                (case embedder idx of
                   None \<Rightarrow> Inr []
                 | Some emb \<Rightarrow>
                     (case emb query of
                        Inl e \<Rightarrow> Inl e
                      | Inr q_vec \<Rightarrow>
                          (if doc_mat = [] then Inl (ValueError Axis_out_of_bounds)
                           else (case cosine_scores doc_mat q_vec of
                                   Inl e \<Rightarrow> Inl e
                                 | Inr scores \<Rightarrow>
                                     map_err (make_hit (docs idx) scores)
                                       (top_k argsort scores k)))))))"

text \<open>
  What numpy promises of \<open>argsort\<close> on an array: a permutation of the indices under
  which the values are in non-decreasing order. Its default kind is not a stable sort, so
  keeping equal values in index order is a further property, stated apart.
\<close>

definition argsort_on :: "(real list \<Rightarrow> nat list) \<Rightarrow> real list \<Rightarrow> bool" where
  "argsort_on A xs =
     (distinct (A xs) \<and> set (A xs) = {0..<length xs} \<and> sorted (map ((!) xs) (A xs)))"

definition stable_on :: "(real list \<Rightarrow> nat list) \<Rightarrow> real list \<Rightarrow> bool" where
  "stable_on A xs =
     (\<forall>i j. i < j \<and> j < length (A xs) \<and> xs ! (A xs ! i) = xs ! (A xs ! j) \<longrightarrow> A xs ! i < A xs ! j)"

text \<open>An argsort that keeps equal values in index order.\<close>

definition stable_argsort :: "real list \<Rightarrow> nat list" where
  "stable_argsort xs = map snd (sort_key fst (zip xs [0..<length xs]))"

text \<open>An argsort that puts equal values in reverse index order.\<close>

definition reversing_argsort :: "real list \<Rightarrow> nat list" where
  "reversing_argsort xs = map snd (sort_key fst (rev (zip xs [0..<length xs])))"

section \<open>Predicates used to state the pipeline properties\<close>

text \<open>The keys a stage writes.\<close>

definition stage_writes :: "node \<Rightarrow> string list" where
  "stage_writes n =
     (case n of
        AgentO_OriginResolver \<Rightarrow> [''origin_mode'', ''origin_label'', ''origin_lat'', ''origin_lon'',
                                   ''lat'', ''lon'', ''radius_km'', ''topn'']
      | AgentC_Recommender \<Rightarrow> [''recommendations'', ''center'']
      | AgentE_Map \<Rightarrow> [''map_html'']
      | AgentD_Answer \<Rightarrow> [''answer'', ''sources''])"

text \<open>The source entry \<open>{"TITLE": r.get("TITLE"), "URL": r.get("URL")}\<close> of a recommendation.\<close>

fun dict_items :: "pyval \<Rightarrow> (string \<times> pyval) list" where
  "dict_items (PDict kv) = kv"
| "dict_items PNone = []"
| "dict_items (PBool b) = []"
| "dict_items (PInt i) = []"
| "dict_items (PFloat f) = []"
| "dict_items (PStr s) = []"
| "dict_items (PTuple xs) = []"
| "dict_items (PList xs) = []"

definition source_pair :: "pyval \<Rightarrow> pyval" where
  "source_pair r =
     PDict [(''TITLE'', dget (dict_items r) ''TITLE''), (''URL'', dget (dict_items r) ''URL'')]"

text \<open>
  The conditions of the validation, in the words of the specification: the mode normalises to
  \<open>device\<close> or \<open>manual\<close>; the origin is numeric and in range; \<open>topn\<close> is below one;
  the radius is present, not the empty string, and negative.
\<close>

definition mode_valid :: "state \<Rightarrow> bool" where
  "mode_valid s =
     (case sget s ''origin_mode'' of
        PStr m \<Rightarrow> lower (strip m) = ''device'' \<or> lower (strip m) = ''manual''
      | _ \<Rightarrow> False)"

definition origin_in_range :: "builtins \<Rightarrow> state \<Rightarrow> bool" where
  "origin_in_range B s =
     (case py_float B (sget s ''origin_lat'') of
        Inl e \<Rightarrow> False
      | Inr lat \<Rightarrow>
          (case py_float B (sget s ''origin_lon'') of
             Inl e \<Rightarrow> False
           | Inr lon \<Rightarrow> - 90 \<le> lat \<and> lat \<le> 90 \<and> - 180 \<le> lon \<and> lon \<le> 180))"

definition topn_below_one :: "builtins \<Rightarrow> state \<Rightarrow> bool" where
  "topn_below_one B s =
     (case py_int B (sget_default s ''topn'' (PInt 5)) of Inl e \<Rightarrow> False | Inr n \<Rightarrow> n < 1)"

definition radius_negative :: "builtins \<Rightarrow> state \<Rightarrow> bool" where
  "radius_negative B s =
     (sget s ''radius_km'' \<noteq> PStr []
      \<and> (case py_float B (sget s ''radius_km'') of Inl e \<Rightarrow> False | Inr r \<Rightarrow> r < 0))"

section \<open>Properties of the double-precision arithmetic\<close>

text \<open>The exponent brackets its argument between two powers of 2, and is the only such integer.\<close>

lemma float_exponent_bounds:
  assumes "x \<noteq> 0"
  shows "2 powi (float_exponent x) \<le> \<bar>x\<bar>" and "\<bar>x\<bar> < 2 powi (float_exponent x + 1)"
proof -
  show "2 powi (float_exponent x) \<le> \<bar>x\<bar>"
  proof (cases "1 \<le> \<bar>x\<bar>")
    case True
    define n where "n = \<lfloor>\<bar>x\<bar>\<rfloor>"
    have n: "0 < n" using True by (simp add: n_def)
    then have b: "1 \<le> bitlen n" by (auto simp: bitlen_alt_def)
    have "(2::int) ^ nat (bitlen n - 1) \<le> n" using bitlen_bounds [OF n] by simp
    then have "(2::real) ^ nat (bitlen n - 1) \<le> of_int n"
      by (metis of_int_le_iff of_int_numeral of_int_power)
    also have "\<dots> \<le> \<bar>x\<bar>" by (simp add: n_def)
    finally show ?thesis using True b by (simp add: float_exponent_def n_def power_int_def)
  next
    case False
    define c where "c = \<lceil>1 / \<bar>x\<bar>\<rceil>"
    have y: "1 < 1 / \<bar>x\<bar>" using False assms by simp
    then have c: "0 < c - 1" by (simp add: c_def less_ceiling_iff)
    have "c - 1 < 2 ^ nat (bitlen (c - 1))" using bitlen_bounds [OF c] by simp
    then have "c \<le> 2 ^ nat (bitlen (c - 1))" by simp
    then have "of_int c \<le> (2::real) ^ nat (bitlen (c - 1))"
      by (metis of_int_le_iff of_int_numeral of_int_power)
    moreover have "1 / \<bar>x\<bar> \<le> of_int c" by (simp add: c_def)
    ultimately have "1 / \<bar>x\<bar> \<le> (2::real) ^ nat (bitlen (c - 1))" by linarith
    then have "1 / (2::real) ^ nat (bitlen (c - 1)) \<le> \<bar>x\<bar>"
      using assms by (simp add: field_simps)
    moreover have "1 \<le> bitlen (c - 1)" using c by (auto simp: bitlen_alt_def)
    ultimately show ?thesis using False
      by (simp add: float_exponent_def c_def power_int_def field_simps)
  qed
  show "\<bar>x\<bar> < 2 powi (float_exponent x + 1)"
  proof (cases "1 \<le> \<bar>x\<bar>")
    case True
    define n where "n = \<lfloor>\<bar>x\<bar>\<rfloor>"
    have n: "0 < n" using True by (simp add: n_def)
    have "n < 2 ^ nat (bitlen n)" using bitlen_bounds [OF n] by simp
    then have "n + 1 \<le> 2 ^ nat (bitlen n)" by simp
    then have "of_int (n + 1) \<le> (2::real) ^ nat (bitlen n)"
      by (metis of_int_le_iff of_int_numeral of_int_power)
    moreover have "\<bar>x\<bar> < of_int (n + 1)" unfolding n_def by linarith
    ultimately have "\<bar>x\<bar> < (2::real) ^ nat (bitlen n)" by linarith
    then show ?thesis using True bitlen_nonneg [of n]
      by (simp add: float_exponent_def n_def power_int_def)
  next
    case False
    define c where "c = \<lceil>1 / \<bar>x\<bar>\<rceil>"
    have y: "1 < 1 / \<bar>x\<bar>" using False assms by simp
    then have c: "0 < c - 1" by (simp add: c_def less_ceiling_iff)
    then have b: "1 \<le> bitlen (c - 1)" by (auto simp: bitlen_alt_def)
    have "(2::int) ^ nat (bitlen (c - 1) - 1) \<le> c - 1" using bitlen_bounds [OF c] by simp
    then have "(2::real) ^ nat (bitlen (c - 1) - 1) \<le> of_int (c - 1)"
      by (metis of_int_le_iff of_int_numeral of_int_power)
    moreover have "of_int (c - 1) < 1 / \<bar>x\<bar>" unfolding c_def by linarith
    ultimately have "(2::real) ^ nat (bitlen (c - 1) - 1) < 1 / \<bar>x\<bar>" by linarith
    then have "\<bar>x\<bar> < 1 / (2::real) ^ nat (bitlen (c - 1) - 1)"
      using assms by (simp add: field_simps)
    then show ?thesis using False b
      by (simp add: float_exponent_def c_def power_int_def field_simps)
  qed
qed

lemma float_exponent_eq:
  assumes "2 powi k \<le> \<bar>x\<bar>" "\<bar>x\<bar> < 2 powi (k + 1)"
  shows "float_exponent x = k"
proof -
  have "0 < (2::real) powi k" by (rule zero_less_power_int) simp
  with assms(1) have "0 < \<bar>x\<bar>" by linarith
  then have x: "x \<noteq> 0" by simp
  note b = float_exponent_bounds [OF x]
  have "\<not> float_exponent x < k"
  proof
    assume "float_exponent x < k"
    then have "(2::real) powi (float_exponent x + 1) \<le> 2 powi k"
      by (intro power_int_increasing) simp_all
    with b(2) assms(1) show False by linarith
  qed
  moreover have "\<not> k < float_exponent x"
  proof
    assume "k < float_exponent x"
    then have "(2::real) powi (k + 1) \<le> 2 powi (float_exponent x)"
      by (intro power_int_increasing) simp_all
    with b(1) assms(2) show False by linarith
  qed
  ultimately show ?thesis by linarith
qed

lemma float_exponent_minus: "float_exponent (- x) = float_exponent x"
  by (simp add: float_exponent_def)

text \<open>Rounding to an integer: a value within a half of an integer, and the sign.\<close>

lemma round_half_even_eq:
  "of_int m - 1 / 2 < z \<Longrightarrow> z < of_int m + 1 / 2 \<Longrightarrow> round_half_even z = m"
proof -
  assume a: "of_int m - 1 / 2 < z" "z < of_int m + 1 / 2"
  show ?thesis
  proof (cases "of_int m \<le> z")
    case True
    then have "\<lfloor>z\<rfloor> = m" using a by (intro floor_unique) linarith+
    then show ?thesis using a True by (simp add: round_half_even_def Let_def)
  next
    case False
    then have f: "\<lfloor>z\<rfloor> = m - 1" using a by (intro floor_unique) (simp, linarith)+
    show ?thesis using a False unfolding round_half_even_def Let_def f by (simp; linarith)
  qed
qed

lemma round_half_even_of_int: "round_half_even (of_int m) = m"
  by (rule round_half_even_eq) simp_all

lemma round_half_even_minus: "round_half_even (- z) = - round_half_even z"
proof (cases "z = of_int \<lfloor>z\<rfloor>")
  case True
  then obtain m where "z = of_int m" ..
  then have "- z = of_int (- m)" by simp
  then show ?thesis using \<open>z = of_int m\<close> round_half_even_of_int by metis
next
  case False
  define f where "f = \<lfloor>z\<rfloor>"
  have fz: "of_int f < z" "z < of_int f + 1" using False unfolding f_def by linarith+
  have fm: "\<lfloor>- z\<rfloor> = - f - 1" using fz by (intro floor_unique) simp_all
  consider "z - of_int f < 1 / 2" | "1 / 2 < z - of_int f" | "z - of_int f = 1 / 2" by linarith
  then show ?thesis
  proof cases
    case 1
    have "round_half_even z = f" by (rule round_half_even_eq) (use 1 fz in linarith)+
    moreover have "round_half_even (- z) = - f" by (rule round_half_even_eq) (use 1 fz in simp_all)
    ultimately show ?thesis by simp
  next
    case 2
    have "round_half_even z = f + 1" by (rule round_half_even_eq) (use 2 fz in simp_all)
    moreover have "round_half_even (- z) = - f - 1" by (rule round_half_even_eq) (use 2 fz in simp_all)
    ultimately show ?thesis by simp
  next
    case 3
    then have "- z - of_int (- f - 1) = 1 / 2" by simp
    with 3 show ?thesis
      unfolding round_half_even_def Let_def fm f_def [symmetric] by (simp; presburger)
  qed
qed

text \<open>
  Rounding to a double: the sign, the value once the exponent is known, and the value
  when the argument is nearer to one double than to its neighbours.
\<close>

lemma round_double_minus: "round_double (- x) = - round_double x"
  by (simp add: round_double_def float_exponent_minus Let_def round_half_even_minus)

lemma round_double_0: "round_double 0 = 0"
  by (simp add: round_double_def)

lemma round_double_eval:
  assumes "2 powi k \<le> \<bar>x\<bar>" "\<bar>x\<bar> < 2 powi (k + 1)" "- 1022 \<le> k"
  shows "round_double x = of_int (round_half_even (x / 2 powi (k - 52))) * 2 powi (k - 52)"
proof -
  have "0 < (2::real) powi k" by (rule zero_less_power_int) simp
  with assms(1) have "0 < \<bar>x\<bar>" by linarith
  then have x: "x \<noteq> 0" by simp
  have "float_exponent x = k" using assms(1,2) by (rule float_exponent_eq)
  then show ?thesis using x assms(3) by (simp add: round_double_def max_def Let_def)
qed

lemma round_double_between:
  assumes "2 powi k \<le> \<bar>x\<bar>" "\<bar>x\<bar> < 2 powi (k + 1)" "- 1022 \<le> k"
    and "(of_int m - 1 / 2) * 2 powi (k - 52) < x" "x < (of_int m + 1 / 2) * 2 powi (k - 52)"
  shows "round_double x = of_int m * 2 powi (k - 52)"
proof -
  have p: "0 < (2::real) powi (k - 52)" by (simp add: zero_less_power_int)
  have "round_half_even (x / 2 powi (k - 52)) = m"
    using assms(4,5) p by (intro round_half_even_eq) (simp_all add: field_simps)
  then show ?thesis using round_double_eval [OF assms(1-3)] by simp
qed

text \<open>A value with a 53-bit significand and an exponent in range is a double.\<close>

lemma round_double_representable:
  assumes "\<bar>m\<bar> < 2 ^ 53" "- 1074 \<le> e"
  shows "round_double (of_int m * 2 powi e) = of_int m * 2 powi e"
proof (cases "m = 0")
  case True
  then show ?thesis by (simp add: round_double_0)
next
  case False
  define x :: real where "x = of_int m * 2 powi e"
  have x: "x \<noteq> 0" using False by (simp add: x_def)
  define E where "E = max (float_exponent x) (- 1022) - 52"
  have "\<bar>x\<bar> = of_int \<bar>m\<bar> * 2 powi e" by (simp add: x_def abs_mult)
  also have "\<dots> < 2 ^ 53 * 2 powi e"
  proof -
    have "real_of_int \<bar>m\<bar> < 2 ^ 53" using assms(1) by (metis of_int_less_iff of_int_numeral of_int_power)
    then show ?thesis by (intro mult_strict_right_mono) (simp_all add: zero_less_power_int)
  qed
  also have "\<dots> = 2 powi (53 + e)" by (simp add: power_int_add)
  finally have up: "\<bar>x\<bar> < 2 powi (53 + e)" .
  have "\<not> 53 + e \<le> float_exponent x"
  proof
    assume "53 + e \<le> float_exponent x"
    then have "(2::real) powi (53 + e) \<le> 2 powi (float_exponent x)"
      by (intro power_int_increasing) simp_all
    with up float_exponent_bounds(1) [OF x] show False by linarith
  qed
  then have E: "E \<le> e" using assms(2) by (simp add: E_def max_def)
  then obtain d where d: "e = E + int d" by (metis zle_iff_zadd)
  have "x / 2 powi E = of_int m * 2 powi (e - E)"
    by (simp add: x_def power_int_diff)
  also have "\<dots> = of_int (m * 2 ^ d)" by (simp add: d)
  finally have "round_half_even (x / 2 powi E) = m * 2 ^ d"
    by (simp only: round_half_even_of_int)
  then have "round_double x = of_int (m * 2 ^ d) * 2 powi E"
    using x by (simp add: round_double_def E_def Let_def)
  also have "\<dots> = x" by (simp add: x_def d power_int_add)
  finally show ?thesis by (simp add: x_def)
qed

lemma round_double_dyadic:
  "x = of_int m * 2 powi e \<Longrightarrow> \<bar>m\<bar> < 2 ^ 53 \<Longrightarrow> - 1074 \<le> e \<Longrightarrow> round_double x = x"
  using round_double_representable [of m e] by simp

lemma round_double_1: "round_double 1 = 1"
  by (rule round_double_dyadic [of _ 1 0]) simp_all

text \<open>
  \<open>degToRad\<close> is \<open>0.017453292519943295\<close>; \<open>radians(12.0)\<close> is \<open>0.20943951023931956\<close>, a tie
  that goes to the even significand, and \<open>radians(180.0)\<close> is the double nearest to
  \<open>pi\<close>.
\<close>

lemma DEG_TO_RAD_value: "DEG_TO_RAD = 5030569068109113 / 288230376151711744"
proof -
  have "round_double (Py_MATH_PI / 180) = of_int 5030569068109113 * 2 powi (- 6 - 52)"
    by (rule round_double_between) (simp_all add: Py_MATH_PI_def power_int_minus)
  then show ?thesis by (simp add: DEG_TO_RAD_def power_int_minus)
qed

lemma radians_0: "radians 0 = 0"
  by (simp add: radians_def round_double_0)

lemma radians_minus: "radians (- x) = - radians x"
  by (simp add: radians_def round_double_minus)

lemma radians_12: "radians 12 = 3772926801081835 / 18014398509481984"
proof -
  have "round_double (12 * DEG_TO_RAD)
      = of_int (round_half_even (12 * DEG_TO_RAD / 2 powi (- 3 - 52))) * 2 powi (- 3 - 52)"
    by (rule round_double_eval) (simp_all add: DEG_TO_RAD_value power_int_minus)
  moreover have "round_half_even (12 * DEG_TO_RAD / 2 powi (- 3 - 52)) = 7545853602163670"
    by (simp add: DEG_TO_RAD_value power_int_minus round_half_even_def Let_def)
  ultimately show ?thesis by (simp add: radians_def power_int_minus)
qed

lemma radians_180: "radians 180 = Py_MATH_PI"
proof -
  have "round_double (180 * DEG_TO_RAD) = of_int 7074237752028440 * 2 powi (1 - 52)"
    by (rule round_double_between) (simp_all add: DEG_TO_RAD_value power_int_minus)
  then show ?thesis by (simp add: radians_def power_int_minus Py_MATH_PI_def)
qed

text \<open>
  The sine and the cosine of \<open>radians(12.0)\<close> and the sine of the double nearest to
  \<open>pi / 2\<close>, each within half a unit in the last place of a double, by the Maclaurin
  series and its remainder.
\<close>

lemma Maclaurin_cos_bound:
  "\<bar>cos x - (\<Sum>m<n. cos_coeff m * x ^ m)\<bar> \<le> inverse (fact n) * \<bar>x\<bar> ^ n" for x :: real
proof -
  obtain t where t: "cos x = (\<Sum>m<n. cos_coeff m * x ^ m) + (cos (t + 1 / 2 * real n * pi) / fact n) * x ^ n"
    using Maclaurin_cos_expansion [of x n] by blast
  define c where "c = cos (t + 1 / 2 * real n * pi)"
  have c: "\<bar>c\<bar> \<le> 1" unfolding c_def by (rule abs_cos_le_one)
  have "cos x - (\<Sum>m<n. cos_coeff m * x ^ m) = c * (inverse (fact n) * x ^ n)"
    using t unfolding c_def by (simp only: divide_inverse algebra_simps)
  then have "\<bar>cos x - (\<Sum>m<n. cos_coeff m * x ^ m)\<bar> = \<bar>c\<bar> * (inverse (fact n) * \<bar>x\<bar> ^ n)"
    by (simp only: abs_mult power_abs abs_inverse) simp
  also have "\<dots> \<le> 1 * (inverse (fact n) * \<bar>x\<bar> ^ n)"
    using c by (intro mult_right_mono) simp_all
  finally show ?thesis by simp
qed

lemma sin_r12_bounds:
  "(7490808106342646 - 1 / 2) / 2 ^ 55 < sin (3772926801081835 / 18014398509481984 :: real)"
  "sin (3772926801081835 / 18014398509481984 :: real) < (7490808106342646 + 1 / 2) / 2 ^ 55"
proof -
  define x :: real where "x = 3772926801081835 / 18014398509481984"
  define P where "P = (\<Sum>m<14. sin_coeff m * x ^ m)"
  define R where "R = inverse (fact 14) * \<bar>x\<bar> ^ 14"
  have "\<bar>sin x - P\<bar> \<le> R" unfolding P_def R_def by (rule Maclaurin_sin_bound)
  then have b: "P - R \<le> sin x" "sin x \<le> P + R" by linarith+
  have lo: "(7490808106342646 - 1 / 2) / 2 ^ 55 < P - R"
    unfolding P_def R_def x_def
    by (simp add: sin_coeff_def lessThan_nat_numeral lessThan_Suc fact_numeral power_divide)
  have hi: "P + R < (7490808106342646 + 1 / 2) / 2 ^ 55"
    unfolding P_def R_def x_def
    by (simp add: sin_coeff_def lessThan_nat_numeral lessThan_Suc fact_numeral power_divide)
  show "(7490808106342646 - 1 / 2) / 2 ^ 55 < sin (3772926801081835 / 18014398509481984 :: real)"
    using lo b(1) unfolding x_def by linarith
  show "sin (3772926801081835 / 18014398509481984 :: real) < (7490808106342646 + 1 / 2) / 2 ^ 55"
    using hi b(2) unfolding x_def by linarith
qed

lemma cos_r12_bounds:
  "(8810370340356224 - 1 / 2) / 2 ^ 53 < cos (3772926801081835 / 18014398509481984 :: real)"
  "cos (3772926801081835 / 18014398509481984 :: real) < (8810370340356224 + 1 / 2) / 2 ^ 53"
proof -
  define x :: real where "x = 3772926801081835 / 18014398509481984"
  define P where "P = (\<Sum>m<13. cos_coeff m * x ^ m)"
  define R where "R = inverse (fact 13) * \<bar>x\<bar> ^ 13"
  have "\<bar>cos x - P\<bar> \<le> R" unfolding P_def R_def by (rule Maclaurin_cos_bound)
  then have b: "P - R \<le> cos x" "cos x \<le> P + R" by linarith+
  have lo: "(8810370340356224 - 1 / 2) / 2 ^ 53 < P - R"
    unfolding P_def R_def x_def
    by (simp add: cos_coeff_def lessThan_nat_numeral lessThan_Suc fact_numeral power_divide)
  have hi: "P + R < (8810370340356224 + 1 / 2) / 2 ^ 53"
    unfolding P_def R_def x_def
    by (simp add: cos_coeff_def lessThan_nat_numeral lessThan_Suc fact_numeral power_divide)
  show "(8810370340356224 - 1 / 2) / 2 ^ 53 < cos (3772926801081835 / 18014398509481984 :: real)"
    using lo b(1) unfolding x_def by linarith
  show "cos (3772926801081835 / 18014398509481984 :: real) < (8810370340356224 + 1 / 2) / 2 ^ 53"
    using hi b(2) unfolding x_def by linarith
qed

lemma sin_half_pi_bound:
  "1 - 1 / 2 ^ 54 < sin (884279719003555 / 562949953421312 :: real)"
proof -
  define x :: real where "x = 884279719003555 / 562949953421312"
  define P where "P = (\<Sum>m<24. sin_coeff m * x ^ m)"
  define R where "R = inverse (fact 24) * \<bar>x\<bar> ^ 24"
  have "\<bar>sin x - P\<bar> \<le> R" unfolding P_def R_def by (rule Maclaurin_sin_bound)
  then have b: "P - R \<le> sin x" by linarith
  have lo: "1 - 1 / 2 ^ 54 < P - R"
    unfolding P_def R_def x_def
    by (simp add: sin_coeff_def lessThan_nat_numeral lessThan_Suc fact_numeral power_divide)
  show ?thesis using lo b unfolding x_def by linarith
qed

text \<open>So these are the correctly rounded values.\<close>

lemma sin_radians_12:
  "round_double (sin (3772926801081835 / 18014398509481984)) = 3745404053171323 / 18014398509481984"
proof -
  note b = sin_r12_bounds
  have "round_double (sin (3772926801081835 / 18014398509481984))
      = of_int 7490808106342646 * 2 powi (- 3 - 52)"
    by (rule round_double_between) (use b in \<open>simp_all add: power_int_minus\<close>)
  then show ?thesis by (simp add: power_int_minus)
qed

lemma cos_radians_12:
  "round_double (cos (3772926801081835 / 18014398509481984)) = 68831018284033 / 70368744177664"
proof -
  note b = cos_r12_bounds
  have "round_double (cos (3772926801081835 / 18014398509481984))
      = of_int 8810370340356224 * 2 powi (- 1 - 52)"
    by (rule round_double_between) (use b in \<open>simp_all add: power_int_minus\<close>)
  then show ?thesis by (simp add: power_int_minus)
qed

lemma sin_half_pi: "round_double (sin (Py_MATH_PI / 2)) = 1"
proof -
  define y where "y = sin (Py_MATH_PI / 2)"
  have lo: "1 - 1 / 2 ^ 54 < y"
    using sin_half_pi_bound by (simp add: y_def Py_MATH_PI_def)
  have hi: "y \<le> 1" by (simp add: y_def)
  show ?thesis
  proof (cases "y = 1")
    case True
    then show ?thesis by (simp add: y_def [symmetric] round_double_1)
  next
    case False
    with hi have lt: "y < 1" by simp
    have "round_double y = of_int 9007199254740992 * 2 powi (- 1 - 52)"
      by (rule round_double_between) (use lo lt in \<open>simp_all add: power_int_minus\<close>)
    then show ?thesis by (simp add: y_def [symmetric] power_int_minus)
  qed
qed

section \<open>Properties of services/geo.py\<close>

subsection \<open>The distance\<close>

lemma correctly_rounded_sel:
  "lm_sin correctly_rounded x = round_double (sin x)"
  "lm_cos correctly_rounded x = round_double (cos x)"
  "lm_atan2 correctly_rounded y x = round_double (atan2 y x)"
  "lm_pow2 correctly_rounded x = round_double (x\<^sup>2)"
  by (simp_all add: correctly_rounded_def)

text \<open>
  The value of the local \<open>a\<close> at the origin \<open>(12.0, 0.0)\<close> and the point
  \<open>(-12.0, 180.0)\<close> is \<open>1.0000000000000002\<close>, one unit in the last place above 1. The
  sum is fixed by six values of the C library: the sine and the cosine of
  \<open>radians(12.0) = 0.20943951023931956\<close>, which are \<open>0.20791169081775934\<close> and
  \<open>0.9781476007338057\<close>, the sine of \<open>1.5707963267948966\<close>, which is \<open>1.0\<close>, and the
  squares of the two sines, \<open>0.04322727117869955\<close> and \<open>1.0\<close>.
\<close>

lemma haversine_a_antipodal_values:
  assumes "lm_sin M (- (3772926801081835 / 18014398509481984))
             = - (3745404053171323 / 18014398509481984)"
    and "lm_cos M (3772926801081835 / 18014398509481984) = 68831018284033 / 70368744177664"
    and "lm_cos M (- (3772926801081835 / 18014398509481984)) = 68831018284033 / 70368744177664"
    and "lm_sin M (Py_MATH_PI / 2) = 1"
    and "lm_pow2 M (- (3745404053171323 / 18014398509481984))
             = 3114853157962155 / 72057594037927936"
    and "lm_pow2 M 1 = 1"
  shows "haversine_a M 12 0 (- 12) 180 = 4503599627370497 / 4503599627370496"
proof -
  let ?r = "3772926801081835 / 18014398509481984 :: real"
  let ?c = "68831018284033 / 70368744177664 :: real"
  let ?ss = "3114853157962155 / 72057594037927936 :: real"
  let ?cc = "2154460652498931 / 2251799813685248 :: real"
  have phi1: "radians 12 = ?r" by (rule radians_12)
  have phi2: "radians (- 12) = - ?r" by (simp only: radians_minus radians_12)
  have dphi: "round_double (- ?r - ?r) = - (3772926801081835 / 9007199254740992)"
    by (rule trans [OF round_double_dyadic [of _ "- 7545853602163670" "- 54"]])
       (simp_all add: power_int_minus)
  have dlon: "round_double (180 - 0) = 180"
    by (rule trans [OF round_double_dyadic [of _ 180 0]]) simp_all
  have dlambda: "radians 180 = Py_MATH_PI" by (rule radians_180)
  have half_dphi: "round_double (- (3772926801081835 / 9007199254740992) / 2) = - ?r"
    by (rule trans [OF round_double_dyadic [of _ "- 7545853602163670" "- 55"]])
       (simp_all add: power_int_minus)
  have half_dlambda: "round_double (Py_MATH_PI / 2) = Py_MATH_PI / 2"
    by (rule round_double_dyadic [of _ 7074237752028440 "- 52"])
       (simp_all add: power_int_minus Py_MATH_PI_def)
  have cc: "round_double (?c * ?c) = ?cc"
  proof -
    have "round_double (?c * ?c) = of_int 8617842609995724 * 2 powi (- 1 - 52)"
      by (rule round_double_between) (simp_all add: power_int_minus)
    then show ?thesis by (simp add: power_int_minus)
  qed
  have prod: "round_double (?cc * 1) = ?cc"
    by (rule trans [OF round_double_dyadic [of _ 8617842609995724 "- 53"]])
       (simp_all add: power_int_minus)
  have sum: "round_double (?ss + ?cc) = 4503599627370497 / 4503599627370496"
  proof -
    have "round_double (?ss + ?cc) = of_int 4503599627370497 * 2 powi (0 - 52)"
      by (rule round_double_between) (simp_all add: power_int_minus)
    then show ?thesis by (simp add: power_int_minus)
  qed
  show ?thesis
    unfolding haversine_a_def Let_def
    by (simp only: phi1 phi2 dphi dlon dlambda half_dphi half_dlambda assms cc prod sum)
qed

text \<open>The correctly rounded library has these six values.\<close>

lemma haversine_a_antipodal:
  "haversine_a correctly_rounded 12 0 (- 12) 180 = 4503599627370497 / 4503599627370496"
proof (rule haversine_a_antipodal_values)
  let ?r = "3772926801081835 / 18014398509481984 :: real"
  let ?s = "3745404053171323 / 18014398509481984 :: real"
  show "lm_sin correctly_rounded (- ?r) = - ?s"
    by (simp only: correctly_rounded_sel sin_minus round_double_minus sin_radians_12)
  show "lm_cos correctly_rounded ?r = 68831018284033 / 70368744177664"
    by (simp only: correctly_rounded_sel cos_radians_12)
  show "lm_cos correctly_rounded (- ?r) = 68831018284033 / 70368744177664"
    by (simp only: correctly_rounded_sel cos_minus cos_radians_12)
  show "lm_sin correctly_rounded (Py_MATH_PI / 2) = 1"
    by (simp only: correctly_rounded_sel sin_half_pi)
  show "lm_pow2 correctly_rounded (- ?s) = 3114853157962155 / 72057594037927936"
  proof -
    have "round_double ((- ?s)\<^sup>2) = of_int 6229706315924310 * 2 powi (- 5 - 52)"
      by (rule round_double_between) (simp_all add: power_int_minus power2_eq_square)
    then show ?thesis by (simp add: correctly_rounded_sel power_int_minus)
  qed
  show "lm_pow2 correctly_rounded 1 = 1"
    by (simp add: correctly_rounded_sel round_double_1)
qed

text \<open>When \<open>a\<close> is that value, \<open>1.0 - a\<close> is negative and its square root raises.\<close>

lemma haversine_km_above_one:
  assumes "haversine_a M lat1 lon1 lat2 lon2 = 4503599627370497 / 4503599627370496"
  shows "haversine_km M lat1 lon1 lat2 lon2 = Inl (ValueError Math_domain_error)"
proof -
  have "round_double (1 - 4503599627370497 / 4503599627370496) = - (1 / 4503599627370496)"
    by (rule trans [OF round_double_dyadic [of _ "- 1" "- 52"]]) (simp_all add: power_int_minus)
  then show ?thesis
    by (simp add: haversine_km_def assms py_sqrt_def)
qed

text \<open>
  What holds of \<open>haversine_km\<close> whatever the C library returns elsewhere: a point is at
  distance 0 from itself when the library is exact at the arguments 0 and 1, and the two
  orders of a pair give the same result, a number or an error, when its sine is odd and its
  square is even.
\<close>

lemma haversine_km_same:
  assumes "lm_sin M 0 = 0" "lm_pow2 M 0 = 0" "lm_atan2 M 0 1 = 0"
  shows "haversine_km M lat lon lat lon = Inr 0"
proof -
  have "haversine_a M lat lon lat lon = 0"
    by (simp add: haversine_a_def round_double_0 radians_0 assms)
  then show ?thesis
    by (simp add: haversine_km_def py_sqrt_def round_double_0 round_double_1 assms)
qed

lemma haversine_km_same_correctly_rounded:
  "haversine_km correctly_rounded lat lon lat lon = Inr 0"
  by (rule haversine_km_same)
     (simp_all add: correctly_rounded_sel round_double_0 atan2_def)

lemma haversine_km_sym:
  assumes "\<And>x. lm_sin M (- x) = - lm_sin M x" "\<And>x. lm_pow2 M (- x) = lm_pow2 M x"
  shows "haversine_km M lat1 lon1 lat2 lon2 = haversine_km M lat2 lon2 lat1 lon1"
proof -
  have 1: "round_double (round_double (radians lat2 - radians lat1) / 2)
         = - round_double (round_double (radians lat1 - radians lat2) / 2)"
  proof -
    have "radians lat2 - radians lat1 = - (radians lat1 - radians lat2)" by simp
    then show ?thesis by (simp only: round_double_minus minus_divide_left [symmetric])
  qed
  have 2: "round_double (radians (round_double (lon2 - lon1)) / 2)
         = - round_double (radians (round_double (lon1 - lon2)) / 2)"
  proof -
    have "lon2 - lon1 = - (lon1 - lon2)" by simp
    then show ?thesis
      by (simp only: round_double_minus radians_minus minus_divide_left [symmetric])
  qed
  have "haversine_a M lat1 lon1 lat2 lon2 = haversine_a M lat2 lon2 lat1 lon1"
    unfolding haversine_a_def Let_def 1 2 assms by (simp only: mult.commute)
  then show ?thesis by (simp add: haversine_km_def)
qed

lemma haversine_km_sym_correctly_rounded:
  "haversine_km correctly_rounded lat1 lon1 lat2 lon2
     = haversine_km correctly_rounded lat2 lon2 lat1 lon1"
  by (rule haversine_km_sym) (simp_all add: correctly_rounded_sel round_double_minus)

lemma haversine_km_antipodal:
  "haversine_km correctly_rounded 12 0 (- 12) 180 = Inl (ValueError Math_domain_error)"
  by (rule haversine_km_above_one) (rule haversine_a_antipodal)

text \<open>
  Claim C6. The claim asks a distance of every pair of points, the same in both orders.
  The code has none for the points \<open>(12.0, 0.0)\<close> and \<open>(-12.0, 180.0)\<close>, which are
  antipodal: rounding puts \<open>a\<close> above 1, and \<open>haversine_km\<close> raises
  \<open>ValueError\<close> in both orders where its documentation promises a distance.
\<close>

theorem haversine_km_raises_at_antipodes:
  "haversine_km correctly_rounded 12 0 (- 12) 180 = Inl (ValueError Math_domain_error)
   \<and> haversine_km correctly_rounded (- 12) 180 12 0 = Inl (ValueError Math_domain_error)"
  using haversine_km_antipodal haversine_km_sym_correctly_rounded [of "- 12" 180 12 0]
  by simp

subsection \<open>The candidates and their order\<close>

lemma candidates_passed:
  "candidates M B lat lon radius_km rows = Inr cs \<Longrightarrow> cs = passed M B lat lon radius_km rows"
  by (induction rows arbitrary: cs)
     (auto simp: passed_def map_filter_simps split: sum.splits option.splits)

lemma make_candidate_fields:
  "make_candidate kv la lo d = Inr c \<Longrightarrow> LA c = la \<and> LO c = lo \<and> DIST_KM c = round3 d"
  by (auto simp: make_candidate_def split: sum.splits)

lemma safe_float_nonzero: "safe_float B x = Some f \<Longrightarrow> f \<noteq> 0"
  by (auto simp: safe_float_def split: if_splits sum.splits)

lemma candidate_Some:
  "candidate M B lat lon radius_km r = Inr (Some c) \<Longrightarrow>
     \<exists>d. haversine_km M lat lon (LA c) (LO c) = Inr d \<and> beyond_radius d radius_km = Inr False
        \<and> DIST_KM c = round3 d \<and> LA c \<noteq> 0 \<and> LO c \<noteq> 0"
  by (auto simp: candidate_def split: pyval.splits option.splits sum.splits if_splits
           dest!: make_candidate_fields dest: safe_float_nonzero)

lemma candidates_all:
  "candidates M B lat lon radius_km rows = Inr cs \<Longrightarrow> c \<in> set cs \<Longrightarrow>
     \<exists>d. haversine_km M lat lon (LA c) (LO c) = Inr d \<and> beyond_radius d radius_km = Inr False
        \<and> DIST_KM c = round3 d \<and> LA c \<noteq> 0 \<and> LO c \<noteq> 0"
proof (induction rows arbitrary: cs)
  case Nil
  then show ?case by simp
next
  case (Cons r rows)
  show ?case
  proof (cases "candidate M B lat lon radius_km r")
    case (Inl e)
    with Cons.prems show ?thesis by simp
  next
    case (Inr oc)
    show ?thesis
    proof (cases oc)
      case None
      with Inr Cons show ?thesis by simp
    next
      case (Some c')
      with Inr Cons.prems obtain cs' where cs': "candidates M B lat lon radius_km rows = Inr cs'" "cs = c' # cs'"
        by (auto split: sum.splits)
      show ?thesis
      proof (cases "c = c'")
        case True
        with Inr Some candidate_Some show ?thesis by blast
      next
        case False
        with cs' Cons.prems(2) have "c \<in> set cs'" by simp
        with Cons.IH cs'(1) show ?thesis by blast
      qed
    qed
  qed
qed

lemma beyond_radius_False:
  "beyond_radius d radius_km = Inr False \<Longrightarrow> radius_value radius_km = Some r \<Longrightarrow> d \<le> r"
  by (cases radius_km) (auto simp: beyond_radius_def split: if_splits)

text \<open>
  What \<open>nearest\<close> returns when it returns, whatever the C library: the first
  \<open>max(1, topn)\<close> candidates in the stable order of their \<open>DIST_KM\<close>. So the result has at
  most \<open>max(1, topn)\<close> entries; \<open>DIST_KM\<close> of every entry is its distance from the origin
  rounded to three decimals, and that distance is within a numeric radius; the entries are
  in non-decreasing order of \<open>DIST_KM\<close>; and the entries of any one \<open>DIST_KM\<close> are the first
  candidates of that distance, in catalog order.
\<close>

lemma nearest_ranked_when_returned:
  assumes "nearest M B rows lat lon topn radius_km = Inr recs"
  shows "recs = take (nat (max 1 topn)) (sort_key DIST_KM (passed M B lat lon radius_km rows))"
    and "int (length recs) \<le> max 1 topn"
    and "\<forall>c \<in> set recs. \<exists>d. haversine_km M lat lon (LA c) (LO c) = Inr d
              \<and> DIST_KM c = round3 d
              \<and> (\<forall>r. radius_value radius_km = Some r \<longrightarrow> d \<le> r)"
    and "sorted (map DIST_KM recs)"
    and "\<forall>k. prefix (filter (\<lambda>c. DIST_KM c = k) recs)
                    (filter (\<lambda>c. DIST_KM c = k) (passed M B lat lon radius_km rows))"
proof -
  from assms obtain cs where cs: "candidates M B lat lon radius_km rows = Inr cs"
    and recs: "recs = take (nat (max 1 topn)) (sort_key DIST_KM cs)"
    by (auto simp: nearest_def split: sum.splits)
  show "recs = take (nat (max 1 topn)) (sort_key DIST_KM (passed M B lat lon radius_km rows))"
    using candidates_passed [OF cs] recs by simp
  show "int (length recs) \<le> max 1 topn"
    by (simp add: recs)
  show "\<forall>c \<in> set recs. \<exists>d. haversine_km M lat lon (LA c) (LO c) = Inr d
              \<and> DIST_KM c = round3 d
              \<and> (\<forall>r. radius_value radius_km = Some r \<longrightarrow> d \<le> r)"
  proof
    fix c
    assume "c \<in> set recs"
    then have "c \<in> set cs"
      using recs by (auto dest: in_set_takeD)
    from candidates_all [OF cs this] obtain d where
      "haversine_km M lat lon (LA c) (LO c) = Inr d" "beyond_radius d radius_km = Inr False"
      "DIST_KM c = round3 d"
      by blast
    with beyond_radius_False show "\<exists>d. haversine_km M lat lon (LA c) (LO c) = Inr d
              \<and> DIST_KM c = round3 d
              \<and> (\<forall>r. radius_value radius_km = Some r \<longrightarrow> d \<le> r)"
      by blast
  qed
  have "sorted (take (nat (max 1 topn)) (map DIST_KM (sort_key DIST_KM cs)))"
    by (intro sorted_wrt_take sorted_sort_key)
  then show "sorted (map DIST_KM recs)"
    by (simp add: recs take_map)
  show "\<forall>k. prefix (filter (\<lambda>c. DIST_KM c = k) recs)
                    (filter (\<lambda>c. DIST_KM c = k) (passed M B lat lon radius_km rows))"
  proof
    fix k
    have "prefix recs (sort_key DIST_KM cs)"
      by (simp add: recs take_is_prefix)
    then have "prefix (filter (\<lambda>c. DIST_KM c = k) recs) (filter (\<lambda>c. DIST_KM c = k) (sort_key DIST_KM cs))"
      by (rule filter_mono_prefix)
    then show "prefix (filter (\<lambda>c. DIST_KM c = k) recs)
                      (filter (\<lambda>c. DIST_KM c = k) (passed M B lat lon radius_km rows))"
      using candidates_passed [OF cs] by (simp add: sort_key_stable)
  qed
qed

text \<open>
  Claim C1. The claim asks a ranked list of every catalog and origin. For the origin
  \<open>(12.0, 0.0)\<close> and a catalog that holds a row at \<open>(-12.0, 180.0)\<close> the code returns no
  list: the distance of that row raises \<open>ValueError\<close>, the loop of \<open>nearest\<close> does not catch
  it, and the call ends with it, whatever \<open>topn\<close> and the radius are.
\<close>

theorem nearest_raises_at_antipodes:
  "nearest correctly_rounded B
     [PDict [(''TITLE'', PStr ''X''), (''LA'', PFloat (- 12)), (''LO'', PFloat 180)]]
     12 0 topn radius_km
   = Inl (ValueError Math_domain_error)"
  by (simp add: nearest_def candidate_def safe_float_def dget_def haversine_km_antipodal)

lemma safe_float_None_iff: "safe_float B x = None \<longleftrightarrow> coord_absent B x"
  by (auto simp: safe_float_def coord_absent_def split: sum.splits)

lemma candidates_skip:
  "candidate M B lat lon radius_km r = Inr None \<Longrightarrow>
   candidates M B lat lon radius_km (xs @ r # ys) = candidates M B lat lon radius_km (xs @ ys)"
  by (induction xs) (simp_all split: sum.splits option.splits)

text \<open>
  Claim C4. A row whose \<open>LA\<close> or \<open>LO\<close> is missing, does not convert to a float, or is
  exactly 0 contributes nothing to the result of \<open>nearest\<close>: the result with the row is
  the result without it, for every origin, \<open>topn\<close> and radius; and no returned entry
  has a zero axis.
\<close>

theorem nearest_excludes_absent_coords:
  "(coord_absent B (dget kv ''LA'') \<or> coord_absent B (dget kv ''LO'') \<longrightarrow>
      nearest M B (xs @ PDict kv # ys) lat lon topn radius_km
        = nearest M B (xs @ ys) lat lon topn radius_km)
   \<and> (nearest M B rows lat lon topn radius_km = Inr recs \<longrightarrow>
        (\<forall>c \<in> set recs. LA c \<noteq> 0 \<and> LO c \<noteq> 0))"
proof (intro conjI impI)
  assume "coord_absent B (dget kv ''LA'') \<or> coord_absent B (dget kv ''LO'')"
  then have "safe_float B (dget kv ''LA'') = None \<or> safe_float B (dget kv ''LO'') = None"
    by (simp add: safe_float_None_iff)
  then have "candidate M B lat lon radius_km (PDict kv) = Inr None"
    by (auto simp: candidate_def split: option.splits)
  then show "nearest M B (xs @ PDict kv # ys) lat lon topn radius_km
        = nearest M B (xs @ ys) lat lon topn radius_km"
    by (simp add: nearest_def candidates_skip)
next
  assume "nearest M B rows lat lon topn radius_km = Inr recs"
  then obtain cs where cs: "candidates M B lat lon radius_km rows = Inr cs"
    and recs: "recs = take (nat (max 1 topn)) (sort_key DIST_KM cs)"
    by (auto simp: nearest_def split: sum.splits)
  show "\<forall>c \<in> set recs. LA c \<noteq> 0 \<and> LO c \<noteq> 0"
  proof
    fix c assume "c \<in> set recs"
    then have "c \<in> set cs" using recs by (auto dest: in_set_takeD)
    from candidates_all [OF cs this] show "LA c \<noteq> 0 \<and> LO c \<noteq> 0" by blast
  qed
qed

theorem nearest_excludes_absent_coords_witness:
  "coord_absent \<lparr>str_float = (\<lambda>s. if s = ''0.0'' then Some 0 else None), str_int = (\<lambda>s. None)\<rparr>
      (dget [(''TITLE'', PStr ''B''), (''LA'', PStr ''0.0''), (''LO'', PFloat 127)] ''LA'')
   \<and> nearest correctly_rounded
        \<lparr>str_float = (\<lambda>s. if s = ''0.0'' then Some 0 else None), str_int = (\<lambda>s. None)\<rparr>
        ([PDict [(''TITLE'', PStr ''A''), (''LA'', PFloat 37), (''LO'', PFloat 127)]]
          @ PDict [(''TITLE'', PStr ''B''), (''LA'', PStr ''0.0''), (''LO'', PFloat 127)] # [])
        37 127 5 PNone
      = nearest correctly_rounded
        \<lparr>str_float = (\<lambda>s. if s = ''0.0'' then Some 0 else None), str_int = (\<lambda>s. None)\<rparr>
        ([PDict [(''TITLE'', PStr ''A''), (''LA'', PFloat 37), (''LO'', PFloat 127)]] @ [])
        37 127 5 PNone
   \<and> nearest correctly_rounded
        \<lparr>str_float = (\<lambda>s. if s = ''0.0'' then Some 0 else None), str_int = (\<lambda>s. None)\<rparr>
        [PDict [(''TITLE'', PStr ''A''), (''LA'', PFloat 37), (''LO'', PFloat 127)]] 37 127 5 PNone
      = Inr [\<lparr>TITLE = ''A'', ADDR = [], OPERATING_TIME = [], URL = [],
              LA = 37, LO = 127, DIST_KM = 0\<rparr>]
   \<and> LA \<lparr>TITLE = ''A'', ADDR = [], OPERATING_TIME = [], URL = [],
              LA = 37, LO = 127, DIST_KM = 0\<rparr> \<noteq> 0"
proof -
  let ?B = "\<lparr>str_float = (\<lambda>s. if s = ''0.0'' then Some 0 else None), str_int = (\<lambda>s. None)\<rparr>"
  let ?kv = "[(''TITLE'', PStr ''B''), (''LA'', PStr ''0.0''), (''LO'', PFloat 127)]"
  let ?a = "PDict [(''TITLE'', PStr ''A''), (''LA'', PFloat 37), (''LO'', PFloat 127)]"
  let ?rec = "\<lparr>TITLE = ''A'', ADDR = [], OPERATING_TIME = [], URL = [],
              LA = 37, LO = 127, DIST_KM = 0\<rparr>"
  have a: "coord_absent ?B (dget ?kv ''LA'')"
    by (simp add: coord_absent_def dget_def)
  have n: "nearest correctly_rounded ?B [?a] 37 127 5 PNone = Inr [?rec]"
    by (simp add: nearest_def candidate_def safe_float_def dget_def
          haversine_km_same_correctly_rounded
          beyond_radius_def make_candidate_def or_empty_strip_def py_or_def strip_def
          is_space_def round3_def round_half_even_def round_double_0)
  show ?thesis
    using a n nearest_excludes_absent_coords
                [of ?B ?kv correctly_rounded "[?a]" "[]" 37 127 5 PNone "[?a]" "[?rec]"]
    by simp
qed

section \<open>Properties of agents/nodes.py and agents/graph.py\<close>

subsection \<open>The stages keep the keys of the context\<close>

lemma origin_resolver_node_keeps:
  assumes "origin_resolver_node B s = Inr out"
  shows "dom s \<subseteq> dom out" and "\<And>k. k \<notin> set (stage_writes AgentO_OriginResolver) \<Longrightarrow> out k = s k"
proof -
  from assms obtain mode ol la lo where
    out: "out = s(''origin_mode'' \<mapsto> PStr mode, ''origin_label'' \<mapsto> ol,
             ''origin_lat'' \<mapsto> PFloat la, ''origin_lon'' \<mapsto> PFloat lo,
             ''lat'' \<mapsto> PFloat la, ''lon'' \<mapsto> PFloat lo,
             ''radius_km'' \<mapsto> resolved_radius B s, ''topn'' \<mapsto> resolved_topn B s)"
    unfolding origin_resolver_node_def Let_def
    by (auto split: sum.splits if_splits prod.splits)
  show "dom s \<subseteq> dom out" unfolding out by auto
  show "\<And>k. k \<notin> set (stage_writes AgentO_OriginResolver) \<Longrightarrow> out k = s k"
    unfolding out stage_writes_def by simp
qed

lemma agent_c_keeps:
  assumes "agent_c E s = Inr out"
  shows "dom s \<subseteq> dom out" and "\<And>k. k \<notin> set [''recommendations'', ''center''] \<Longrightarrow> out k = s k"
proof -
  from assms obtain r c where
    out: "out = setdefault (s(''recommendations'' \<mapsto> r)) ''center'' c"
    unfolding agent_c_def Let_def
    by (auto split: sum.splits)
  show "dom s \<subseteq> dom out" unfolding out setdefault_def by (auto split: option.splits)
  show "\<And>k. k \<notin> set [''recommendations'', ''center''] \<Longrightarrow> out k = s k"
    unfolding out setdefault_def by (simp split: option.splits)
qed

lemma agent_e_keeps:
  assumes "agent_e E s = Inr out"
  shows "dom s \<subseteq> dom out" and "\<And>k. k \<noteq> ''map_html'' \<Longrightarrow> out k = s k"
proof -
  from assms obtain h where out: "out = s(''map_html'' \<mapsto> h)"
    unfolding agent_e_def Let_def
    by (auto split: pyval.splits if_splits)
  show "dom s \<subseteq> dom out" unfolding out by auto
  show "\<And>k. k \<noteq> ''map_html'' \<Longrightarrow> out k = s k"
    unfolding out by simp
qed

lemma write_answer_Inr:
  "write_answer s a recs = Inr out \<Longrightarrow> \<exists>src. sources_of recs = Inr src \<and> out = s(''answer'' \<mapsto> a, ''sources'' \<mapsto> src)"
  by (auto simp: write_answer_def split: sum.splits)

lemma agent_d_Inr:
  assumes "snd (agent_d E s) = Inr out"
  shows "\<exists>a src. sources_of (py_or (sget s ''recommendations'') (PList [])) = Inr src
            \<and> out = s(''answer'' \<mapsto> a, ''sources'' \<mapsto> src)"
  using assms unfolding agent_d_def Let_def
  by (auto split: if_splits sum.splits dest!: write_answer_Inr)

lemma agent_d_keeps:
  assumes "snd (agent_d E s) = Inr out"
  shows "dom s \<subseteq> dom out" and "\<And>k. k \<notin> set [''answer'', ''sources''] \<Longrightarrow> out k = s k"
proof -
  from agent_d_Inr [OF assms] obtain a src where out: "out = s(''answer'' \<mapsto> a, ''sources'' \<mapsto> src)"
    by blast
  show "dom s \<subseteq> dom out" unfolding out by auto
  show "\<And>k. k \<notin> set [''answer'', ''sources''] \<Longrightarrow> out k = s k"
    unfolding out by simp
qed

text \<open>
  Claim C5. Each stage function (\<open>origin_resolver_node\<close>, \<open>agent_c\<close>, \<open>agent_e\<close>,
  \<open>agent_d\<close>), when it returns, returns a context that has every key of its input, and
  every key other than the stage's own outputs keeps its value.
\<close>

theorem stages_keep_upstream_keys:
  "(origin_resolver_node B s1 = Inr out1 \<longrightarrow>
      dom s1 \<subseteq> dom out1 \<and> (\<forall>k. k \<notin> set (stage_writes AgentO_OriginResolver) \<longrightarrow> out1 k = s1 k))
   \<and> (agent_c E s2 = Inr out2 \<longrightarrow>
      dom s2 \<subseteq> dom out2 \<and> (\<forall>k. k \<notin> set (stage_writes AgentC_Recommender) \<longrightarrow> out2 k = s2 k))
   \<and> (agent_e E s3 = Inr out3 \<longrightarrow>
      dom s3 \<subseteq> dom out3 \<and> (\<forall>k. k \<notin> set (stage_writes AgentE_Map) \<longrightarrow> out3 k = s3 k))
   \<and> (snd (agent_d E s4) = Inr out4 \<longrightarrow>
      dom s4 \<subseteq> dom out4 \<and> (\<forall>k. k \<notin> set (stage_writes AgentD_Answer) \<longrightarrow> out4 k = s4 k))"
proof (intro conjI impI allI)
  assume a: "origin_resolver_node B s1 = Inr out1"
  show "dom s1 \<subseteq> dom out1" using a by (rule origin_resolver_node_keeps)
  fix k assume "k \<notin> set (stage_writes AgentO_OriginResolver)"
  then show "out1 k = s1 k"
    using origin_resolver_node_keeps(2) [OF a, of k] by simp
next
  assume a: "agent_c E s2 = Inr out2"
  show "dom s2 \<subseteq> dom out2" using a by (rule agent_c_keeps)
  fix k assume "k \<notin> set (stage_writes AgentC_Recommender)"
  then show "out2 k = s2 k"
    using agent_c_keeps(2) [OF a, of k] by (simp add: stage_writes_def)
next
  assume a: "agent_e E s3 = Inr out3"
  show "dom s3 \<subseteq> dom out3" using a by (rule agent_e_keeps)
  fix k assume "k \<notin> set (stage_writes AgentE_Map)"
  then show "out3 k = s3 k"
    using agent_e_keeps(2) [OF a, of k] by (simp add: stage_writes_def)
next
  assume a: "snd (agent_d E s4) = Inr out4"
  show "dom s4 \<subseteq> dom out4" using a by (rule agent_d_keeps)
  fix k assume "k \<notin> set (stage_writes AgentD_Answer)"
  then show "out4 k = s4 k"
    using agent_d_keeps(2) [OF a, of k] by (simp add: stage_writes_def)
qed

lemma strip_device: "strip ''device'' = ''device''" by code_simp

lemma lower_device: "lower ''device'' = ''device''" by code_simp

lemma resolver_device_example:
  "origin_resolver_node \<lparr>str_float = (\<lambda>s. None), str_int = (\<lambda>s. None)\<rparr>
     [''origin_mode'' \<mapsto> PStr ''device'', ''origin_lat'' \<mapsto> PFloat 37, ''origin_lon'' \<mapsto> PFloat 127,
      ''radius_km'' \<mapsto> PFloat (- 1), ''topn'' \<mapsto> PStr ''many'']
   = Inr ([''origin_mode'' \<mapsto> PStr ''device'', ''origin_lat'' \<mapsto> PFloat 37, ''origin_lon'' \<mapsto> PFloat 127,
      ''radius_km'' \<mapsto> PFloat (- 1), ''topn'' \<mapsto> PStr ''many'']
      (''origin_mode'' \<mapsto> PStr ''device'', ''origin_label'' \<mapsto> PStr LABEL_MY_LOCATION,
       ''origin_lat'' \<mapsto> PFloat 37, ''origin_lon'' \<mapsto> PFloat 127,
       ''lat'' \<mapsto> PFloat 37, ''lon'' \<mapsto> PFloat 127,
       ''radius_km'' \<mapsto> PFloat (- 1), ''topn'' \<mapsto> PInt 5))"
  by (simp add: origin_resolver_node_def or_empty_strip_def sget_def py_or_def strip_device lower_device
        resolve_device_def validate_coords_def resolved_radius_def
        resolved_topn_def sget_default_def)

lemma agent_c_example:
  "agent_c \<lparr>bi = \<lparr>str_float = (\<lambda>s. None), str_int = (\<lambda>s. None)\<rparr>, render = (\<lambda>p r c. []),
         conf = \<lparr>AOAI_ENDPOINT = ENV_MISSING, AOAI_API_KEY = ENV_MISSING, AOAI_DEPLOYMENT = ENV_MISSING\<rparr>,
         remote = (\<lambda>q r. None), fmt = (\<lambda>v. []), lm = correctly_rounded\<rparr>
     [''lat'' \<mapsto> PFloat 37, ''lon'' \<mapsto> PFloat 127, ''question'' \<mapsto> PStr ''q'']
   = Inr [''lat'' \<mapsto> PFloat 37, ''lon'' \<mapsto> PFloat 127, ''question'' \<mapsto> PStr ''q'',
          ''recommendations'' \<mapsto> PList [], ''center'' \<mapsto> PTuple [PFloat 37, PFloat 127]]"
  by (simp add: agent_c_def sget_def sget_default_def py_or_def blank_radius_to_none_def nearest_def
        setdefault_def)

lemma agent_e_example:
  "agent_e \<lparr>bi = \<lparr>str_float = (\<lambda>s. None), str_int = (\<lambda>s. None)\<rparr>, render = (\<lambda>p r c. []),
         conf = \<lparr>AOAI_ENDPOINT = ENV_MISSING, AOAI_API_KEY = ENV_MISSING, AOAI_DEPLOYMENT = ENV_MISSING\<rparr>,
         remote = (\<lambda>q r. None), fmt = (\<lambda>v. []), lm = correctly_rounded\<rparr>
     [''question'' \<mapsto> PStr ''q'', ''recommendations'' \<mapsto> PList []]
   = Inr [''question'' \<mapsto> PStr ''q'', ''recommendations'' \<mapsto> PList [],
          ''map_html'' \<mapsto> PStr NO_RECS_HTML]"
  by (simp add: agent_e_def sget_def py_or_def)

theorem stages_keep_upstream_keys_witness:
  "origin_resolver_node \<lparr>str_float = (\<lambda>s. None), str_int = (\<lambda>s. None)\<rparr>
     [''origin_mode'' \<mapsto> PStr ''device'', ''origin_lat'' \<mapsto> PFloat 37, ''origin_lon'' \<mapsto> PFloat 127,
      ''radius_km'' \<mapsto> PFloat (- 1), ''topn'' \<mapsto> PStr ''many'']
   = Inr ([''origin_mode'' \<mapsto> PStr ''device'', ''origin_lat'' \<mapsto> PFloat 37, ''origin_lon'' \<mapsto> PFloat 127,
      ''radius_km'' \<mapsto> PFloat (- 1), ''topn'' \<mapsto> PStr ''many'']
      (''origin_mode'' \<mapsto> PStr ''device'', ''origin_label'' \<mapsto> PStr LABEL_MY_LOCATION,
       ''origin_lat'' \<mapsto> PFloat 37, ''origin_lon'' \<mapsto> PFloat 127,
       ''lat'' \<mapsto> PFloat 37, ''lon'' \<mapsto> PFloat 127,
       ''radius_km'' \<mapsto> PFloat (- 1), ''topn'' \<mapsto> PInt 5))
   \<and> agent_c \<lparr>bi = \<lparr>str_float = (\<lambda>s. None), str_int = (\<lambda>s. None)\<rparr>, render = (\<lambda>p r c. []),
         conf = \<lparr>AOAI_ENDPOINT = ENV_MISSING, AOAI_API_KEY = ENV_MISSING, AOAI_DEPLOYMENT = ENV_MISSING\<rparr>,
         remote = (\<lambda>q r. None), fmt = (\<lambda>v. []), lm = correctly_rounded\<rparr>
       [''lat'' \<mapsto> PFloat 37, ''lon'' \<mapsto> PFloat 127, ''question'' \<mapsto> PStr ''q'']
     = Inr [''lat'' \<mapsto> PFloat 37, ''lon'' \<mapsto> PFloat 127, ''question'' \<mapsto> PStr ''q'',
          ''recommendations'' \<mapsto> PList [], ''center'' \<mapsto> PTuple [PFloat 37, PFloat 127]]
   \<and> dom [''lat'' \<mapsto> PFloat 37, ''lon'' \<mapsto> PFloat 127, ''question'' \<mapsto> PStr ''q'']
       \<subseteq> dom [''lat'' \<mapsto> PFloat 37, ''lon'' \<mapsto> PFloat 127, ''question'' \<mapsto> PStr ''q'',
          ''recommendations'' \<mapsto> PList [], ''center'' \<mapsto> PTuple [PFloat 37, PFloat 127]]
   \<and> agent_e \<lparr>bi = \<lparr>str_float = (\<lambda>s. None), str_int = (\<lambda>s. None)\<rparr>, render = (\<lambda>p r c. []),
         conf = \<lparr>AOAI_ENDPOINT = ENV_MISSING, AOAI_API_KEY = ENV_MISSING, AOAI_DEPLOYMENT = ENV_MISSING\<rparr>,
         remote = (\<lambda>q r. None), fmt = (\<lambda>v. []), lm = correctly_rounded\<rparr>
       [''question'' \<mapsto> PStr ''q'', ''recommendations'' \<mapsto> PList []]
     = Inr [''question'' \<mapsto> PStr ''q'', ''recommendations'' \<mapsto> PList [],
          ''map_html'' \<mapsto> PStr NO_RECS_HTML]
   \<and> snd (agent_d \<lparr>bi = \<lparr>str_float = (\<lambda>s. None), str_int = (\<lambda>s. None)\<rparr>, render = (\<lambda>p r c. []),
         conf = \<lparr>AOAI_ENDPOINT = ENV_MISSING, AOAI_API_KEY = ENV_MISSING, AOAI_DEPLOYMENT = ENV_MISSING\<rparr>,
         remote = (\<lambda>q r. None), fmt = (\<lambda>v. []), lm = correctly_rounded\<rparr>
       [''question'' \<mapsto> PStr ''q'', ''recommendations'' \<mapsto> PList []])
     = Inr [''question'' \<mapsto> PStr ''q'', ''recommendations'' \<mapsto> PList [],
          ''answer'' \<mapsto> PStr NO_RESULT_ANSWER, ''sources'' \<mapsto> PList []]
   \<and> dom [''question'' \<mapsto> PStr ''q'', ''recommendations'' \<mapsto> PList []]
       \<subseteq> dom [''question'' \<mapsto> PStr ''q'', ''recommendations'' \<mapsto> PList [],
          ''answer'' \<mapsto> PStr NO_RESULT_ANSWER, ''sources'' \<mapsto> PList []]"
proof -
  let ?B = "\<lparr>str_float = (\<lambda>s. None), str_int = (\<lambda>s. None)\<rparr>"
  let ?E = "\<lparr>bi = ?B, render = (\<lambda>p r c. []),
         conf = \<lparr>AOAI_ENDPOINT = ENV_MISSING, AOAI_API_KEY = ENV_MISSING, AOAI_DEPLOYMENT = ENV_MISSING\<rparr>,
         remote = (\<lambda>q r. None), fmt = (\<lambda>v. []), lm = correctly_rounded\<rparr>"
  let ?s1 = "[''origin_mode'' \<mapsto> PStr ''device'', ''origin_lat'' \<mapsto> PFloat 37, ''origin_lon'' \<mapsto> PFloat 127,
      ''radius_km'' \<mapsto> PFloat (- 1), ''topn'' \<mapsto> PStr ''many'']"
  let ?s2 = "[''lat'' \<mapsto> PFloat 37, ''lon'' \<mapsto> PFloat 127, ''question'' \<mapsto> PStr ''q'']"
  let ?s3 = "[''question'' \<mapsto> PStr ''q'', ''recommendations'' \<mapsto> PList []]"
  have d: "snd (agent_d ?E ?s3) = Inr (?s3(''answer'' \<mapsto> PStr NO_RESULT_ANSWER, ''sources'' \<mapsto> PList []))"
    by (simp add: agent_d_def sget_def py_or_def write_answer_def sources_of_def Let_def)
  from resolver_device_example agent_c_example agent_e_example d
    stages_keep_upstream_keys [of ?B ?s1
      "?s1(''origin_mode'' \<mapsto> PStr ''device'', ''origin_label'' \<mapsto> PStr LABEL_MY_LOCATION,
       ''origin_lat'' \<mapsto> PFloat 37, ''origin_lon'' \<mapsto> PFloat 127,
       ''lat'' \<mapsto> PFloat 37, ''lon'' \<mapsto> PFloat 127,
       ''radius_km'' \<mapsto> PFloat (- 1), ''topn'' \<mapsto> PInt 5)"
      ?E ?s2 "?s2(''recommendations'' \<mapsto> PList [], ''center'' \<mapsto> PTuple [PFloat 37, PFloat 127])"
      ?s3 "?s3(''map_html'' \<mapsto> PStr NO_RECS_HTML)"
      ?s3 "?s3(''answer'' \<mapsto> PStr NO_RESULT_ANSWER, ''sources'' \<mapsto> PList [])"]
  show ?thesis by simp
qed

subsection \<open>The validation before the graph\<close>

lemma or_empty_strip_Inr:
  "or_empty_strip v = Inr m \<Longrightarrow> (\<exists>s. v = PStr s \<and> m = strip s) \<or> (\<not> truthy v \<and> m = [])"
  by (cases v) (auto simp: or_empty_strip_def py_or_def strip_def split: if_splits)

lemma lower_Nil: "lower [] = []"
  by (simp add: lower_def)

lemma validation_mode:
  assumes "ensure_origin_valid B s = Inr u"
  shows "mode_valid s"
proof -
  from assms obtain m where m: "or_empty_strip (sget s ''origin_mode'') = Inr m"
    and ok: "lower m = ''device'' \<or> lower m = ''manual''"
    unfolding ensure_origin_valid_def
    by (auto split: sum.splits if_splits)
  from or_empty_strip_Inr [OF m] ok show ?thesis
    by (auto simp: mode_valid_def lower_Nil)
qed

lemma validation_rest:
  assumes "ensure_origin_valid B s = Inr u"
  shows "origin_in_range B s \<and> \<not> topn_below_one B s \<and> \<not> radius_negative B s"
  using assms unfolding ensure_origin_valid_def origin_in_range_def topn_below_one_def
    radius_negative_def Let_def
  by (auto simp: sget_def sget_default_def split: sum.splits if_splits option.splits)

text \<open>
  Claim C2. \<open>ensure_origin_valid\<close> raises whenever the mode does not normalise to
  \<open>device\<close> or \<open>manual\<close>, the origin is not numeric or out of range, \<open>topn\<close> is below
  one, or the radius is negative. \<open>run_o_to_d\<close> runs this validation on the state it
  built, before the graph: when it raises, the run ends with that error and no node (so
  neither the resolver nor the recommender) was entered; when it passes, the run is the
  run of the graph.
\<close>

theorem validation_rejects_and_aborts:
  "((\<not> mode_valid state \<or> \<not> origin_in_range B state \<or> topn_below_one B state
       \<or> radius_negative B state)
      \<longrightarrow> (\<exists>e. ensure_origin_valid B state = Inl e))
   \<and> (o_to_d_state (bi E) rows origin_mode origin_lat origin_lon origin_label question topn
          radius_km map_provider = Inr st
        \<and> ensure_origin_valid (bi E) st = Inl e'
      \<longrightarrow> run_o_to_d E rows origin_mode origin_lat origin_lon origin_label question topn
            radius_km map_provider = ([], Inl e'))
   \<and> (o_to_d_state (bi E) rows origin_mode origin_lat origin_lon origin_label question topn
          radius_km map_provider = Inr st
        \<and> ensure_origin_valid (bi E) st = Inr ()
      \<longrightarrow> run_o_to_d E rows origin_mode origin_lat origin_lon origin_label question topn
            radius_km map_provider = invoke E build_graph_full st)"
proof (intro conjI impI)
  assume bad: "\<not> mode_valid state \<or> \<not> origin_in_range B state \<or> topn_below_one B state
       \<or> radius_negative B state"
  show "\<exists>e. ensure_origin_valid B state = Inl e"
  proof (cases "ensure_origin_valid B state")
    case (Inl e)
    then show ?thesis by blast
  next
    case (Inr u)
    with validation_mode validation_rest bad show ?thesis by blast
  qed
qed (simp_all add: run_o_to_d_def)

theorem validation_rejects_and_aborts_witness:
  "topn_below_one \<lparr>str_float = (\<lambda>s. None), str_int = (\<lambda>s. None)\<rparr>
     [''rows'' \<mapsto> PList [], ''origin_mode'' \<mapsto> PStr ''device'', ''origin_lat'' \<mapsto> PFloat 37,
      ''origin_lon'' \<mapsto> PFloat 127, ''origin_label'' \<mapsto> PStr ''here'', ''topn'' \<mapsto> PInt 0,
      ''radius_km'' \<mapsto> PFloat 3, ''question'' \<mapsto> PStr ''q'']
   \<and> ensure_origin_valid \<lparr>str_float = (\<lambda>s. None), str_int = (\<lambda>s. None)\<rparr>
     [''rows'' \<mapsto> PList [], ''origin_mode'' \<mapsto> PStr ''device'', ''origin_lat'' \<mapsto> PFloat 37,
      ''origin_lon'' \<mapsto> PFloat 127, ''origin_label'' \<mapsto> PStr ''here'', ''topn'' \<mapsto> PInt 0,
      ''radius_km'' \<mapsto> PFloat 3, ''question'' \<mapsto> PStr ''q''] = Inl (ValueError Topn_below_one)
   \<and> run_o_to_d
        \<lparr>bi = \<lparr>str_float = (\<lambda>s. None), str_int = (\<lambda>s. None)\<rparr>,
         render = (\<lambda>p r c. []),
         conf = \<lparr>AOAI_ENDPOINT = ENV_MISSING, AOAI_API_KEY = ENV_MISSING, AOAI_DEPLOYMENT = ENV_MISSING\<rparr>,
         remote = (\<lambda>q r. None), fmt = (\<lambda>v. []), lm = correctly_rounded\<rparr>
        (PList []) (PStr ''device'') (PFloat 37) (PFloat 127) (PStr ''here'') (PStr ''q'') (PInt 0)
        (PFloat 3) PNone
      = ([], Inl (ValueError Topn_below_one))
   \<and> ensure_origin_valid \<lparr>str_float = (\<lambda>s. None), str_int = (\<lambda>s. None)\<rparr>
     [''rows'' \<mapsto> PList [], ''origin_mode'' \<mapsto> PStr ''device'', ''origin_lat'' \<mapsto> PFloat 37,
      ''origin_lon'' \<mapsto> PFloat 127, ''origin_label'' \<mapsto> PStr ''here'', ''topn'' \<mapsto> PInt 2,
      ''radius_km'' \<mapsto> PFloat 3, ''question'' \<mapsto> PStr ''q''] = Inr ()
   \<and> run_o_to_d
        \<lparr>bi = \<lparr>str_float = (\<lambda>s. None), str_int = (\<lambda>s. None)\<rparr>,
         render = (\<lambda>p r c. []),
         conf = \<lparr>AOAI_ENDPOINT = ENV_MISSING, AOAI_API_KEY = ENV_MISSING, AOAI_DEPLOYMENT = ENV_MISSING\<rparr>,
         remote = (\<lambda>q r. None), fmt = (\<lambda>v. []), lm = correctly_rounded\<rparr>
        (PList []) (PStr ''device'') (PFloat 37) (PFloat 127) (PStr ''here'') (PStr ''q'') (PInt 2)
        (PFloat 3) PNone
      = invoke
        \<lparr>bi = \<lparr>str_float = (\<lambda>s. None), str_int = (\<lambda>s. None)\<rparr>,
         render = (\<lambda>p r c. []),
         conf = \<lparr>AOAI_ENDPOINT = ENV_MISSING, AOAI_API_KEY = ENV_MISSING, AOAI_DEPLOYMENT = ENV_MISSING\<rparr>,
         remote = (\<lambda>q r. None), fmt = (\<lambda>v. []), lm = correctly_rounded\<rparr>
        build_graph_full
        [''rows'' \<mapsto> PList [], ''origin_mode'' \<mapsto> PStr ''device'', ''origin_lat'' \<mapsto> PFloat 37,
         ''origin_lon'' \<mapsto> PFloat 127, ''origin_label'' \<mapsto> PStr ''here'', ''topn'' \<mapsto> PInt 2,
         ''radius_km'' \<mapsto> PFloat 3, ''question'' \<mapsto> PStr ''q'']"
proof -
  let ?B = "\<lparr>str_float = (\<lambda>s. None), str_int = (\<lambda>s. None)\<rparr>"
  let ?E = "\<lparr>bi = ?B, render = (\<lambda>p r c. []),
         conf = \<lparr>AOAI_ENDPOINT = ENV_MISSING, AOAI_API_KEY = ENV_MISSING, AOAI_DEPLOYMENT = ENV_MISSING\<rparr>,
         remote = (\<lambda>q r. None), fmt = (\<lambda>v. []), lm = correctly_rounded\<rparr>"
  let ?st = "\<lambda>n. [''rows'' \<mapsto> PList [], ''origin_mode'' \<mapsto> PStr ''device'', ''origin_lat'' \<mapsto> PFloat 37,
      ''origin_lon'' \<mapsto> PFloat 127, ''origin_label'' \<mapsto> PStr ''here'', ''topn'' \<mapsto> PInt n,
      ''radius_km'' \<mapsto> PFloat 3, ''question'' \<mapsto> PStr ''q'']"
  have st: "o_to_d_state (bi ?E) (PList []) (PStr ''device'') (PFloat 37) (PFloat 127) (PStr ''here'')
              (PStr ''q'') (PInt n) (PFloat 3) PNone = Inr (?st n)" for n
    by (simp add: o_to_d_state_def py_or_def)
  have below: "topn_below_one ?B (?st 0)"
    by (simp add: topn_below_one_def sget_default_def)
  have valid0: "ensure_origin_valid (bi ?E) (?st 0) = Inl (ValueError Topn_below_one)"
    by (simp add: ensure_origin_valid_def or_empty_strip_def sget_def sget_default_def py_or_def
          strip_device lower_device)
  have valid2: "ensure_origin_valid (bi ?E) (?st 2) = Inr ()"
    by (simp add: ensure_origin_valid_def or_empty_strip_def sget_def sget_default_def py_or_def
          strip_device lower_device)
  note t0 = validation_rejects_and_aborts [of "?st 0" ?B ?E "PList []" "PStr ''device''" "PFloat 37"
      "PFloat 127" "PStr ''here''" "PStr ''q''" "PInt 0" "PFloat 3" PNone "?st 0"
      "ValueError Topn_below_one"]
  note t2 = validation_rejects_and_aborts [of "?st 2" ?B ?E "PList []" "PStr ''device''" "PFloat 37"
      "PFloat 127" "PStr ''here''" "PStr ''q''" "PInt 2" "PFloat 3" PNone "?st 2"
      "ValueError Topn_below_one"]
  from t0 st [of 0] valid0 have r0: "run_o_to_d ?E (PList []) (PStr ''device'') (PFloat 37) (PFloat 127)
      (PStr ''here'') (PStr ''q'') (PInt 0) (PFloat 3) PNone = ([], Inl (ValueError Topn_below_one))"
    by blast
  from t2 st [of 2] valid2 have r2: "run_o_to_d ?E (PList []) (PStr ''device'') (PFloat 37) (PFloat 127)
      (PStr ''here'') (PStr ''q'') (PInt 2) (PFloat 3) PNone = invoke ?E build_graph_full (?st 2)"
    by blast
  from below valid0 valid2 r0 r2 show ?thesis by simp
qed

subsection \<open>The defaults of the resolver\<close>

lemma sget_upd_other: "k \<noteq> k' \<Longrightarrow> sget (s(k' := v)) k = sget s k"
  by (simp add: sget_def)

lemma resolve_device_upd:
  assumes "k \<notin> {''origin_lat'', ''origin_lon'', ''origin_label''}"
  shows "resolve_device B (s(k := v)) = resolve_device B s"
proof -
  have "sget (s(k := v)) ''origin_lat'' = sget s ''origin_lat''"
    "sget (s(k := v)) ''origin_lon'' = sget s ''origin_lon''"
    "sget (s(k := v)) ''origin_label'' = sget s ''origin_label''"
    using assms by (auto intro: sget_upd_other)
  then show ?thesis unfolding resolve_device_def by (simp only:)
qed

lemma resolve_manual_upd:
  assumes "k \<notin> {''origin_lat'', ''origin_lon'', ''origin_label''}"
  shows "resolve_manual B (s(k := v)) = resolve_manual B s"
proof -
  have "sget (s(k := v)) ''origin_lat'' = sget s ''origin_lat''"
    "sget (s(k := v)) ''origin_lon'' = sget s ''origin_lon''"
    "sget (s(k := v)) ''origin_label'' = sget s ''origin_label''"
    using assms by (auto intro: sget_upd_other)
  then show ?thesis unfolding resolve_manual_def by (simp only:)
qed

lemma resolver_error_upd:
  assumes "k \<notin> {''origin_mode'', ''origin_lat'', ''origin_lon'', ''origin_label''}"
  shows "(origin_resolver_node B (s(k := v)) = Inl e) = (origin_resolver_node B s = Inl e)"
proof -
  have m: "sget (s(k := v)) ''origin_mode'' = sget s ''origin_mode''"
    using assms by (auto intro: sget_upd_other)
  have d: "resolve_device B (s(k := v)) = resolve_device B s"
    and n: "resolve_manual B (s(k := v)) = resolve_manual B s"
    using assms by (simp_all add: resolve_device_upd resolve_manual_upd)
  show ?thesis
    unfolding origin_resolver_node_def Let_def m d n
    by (simp split: sum.splits prod.splits)
qed

lemma resolver_Inr_radius_topn:
  assumes "origin_resolver_node B s = Inr out"
  shows "out ''radius_km'' = Some (resolved_radius B s)" and "out ''topn'' = Some (resolved_topn B s)"
  using assms unfolding origin_resolver_node_def Let_def
  by (auto split: sum.splits if_splits prod.splits)

text \<open>
  Claim C3, as amended. The resolver never fails because of \<open>radius_km\<close>: whether it
  fails, and with which error, does not depend on the value under that key. When it
  returns, the resolved radius is 3.0 for an absent key, \<open>None\<close> for \<open>None\<close>, the float for
  a value that converts to one (negative or not), and \<open>None\<close> for any other value, the
  empty string among them.
\<close>

theorem resolver_radius_lenient:
  "(origin_resolver_node B (state(''radius_km'' := v)) = Inl e) = (origin_resolver_node B state = Inl e)
   \<and> (origin_resolver_node B state = Inr out \<longrightarrow>
        out ''radius_km'' =
          Some (case state ''radius_km'' of
                  None \<Rightarrow> PFloat 3
                | Some r \<Rightarrow>
                    (if r = PNone then PNone
                     else (case py_float B r of Inl err \<Rightarrow> PNone | Inr f \<Rightarrow> PFloat f))))"
proof (intro conjI impI)
  show "(origin_resolver_node B (state(''radius_km'' := v)) = Inl e) = (origin_resolver_node B state = Inl e)"
    by (rule resolver_error_upd) simp
next
  assume "origin_resolver_node B state = Inr out"
  then have "out ''radius_km'' = Some (resolved_radius B state)"
    by (rule resolver_Inr_radius_topn)
  then show "out ''radius_km'' =
          Some (case state ''radius_km'' of
                  None \<Rightarrow> PFloat 3
                | Some r \<Rightarrow>
                    (if r = PNone then PNone
                     else (case py_float B r of Inl err \<Rightarrow> PNone | Inr f \<Rightarrow> PFloat f)))"
    by (simp add: resolved_radius_def sget_default_def Let_def split: option.splits)
qed

theorem resolver_radius_lenient_witness:
  "origin_resolver_node \<lparr>str_float = (\<lambda>s. None), str_int = (\<lambda>s. None)\<rparr>
     [''origin_mode'' \<mapsto> PStr ''device'', ''origin_lat'' \<mapsto> PFloat 37, ''origin_lon'' \<mapsto> PFloat 127,
      ''radius_km'' \<mapsto> PFloat (- 1), ''topn'' \<mapsto> PStr ''many'']
   = Inr ([''origin_mode'' \<mapsto> PStr ''device'', ''origin_lat'' \<mapsto> PFloat 37, ''origin_lon'' \<mapsto> PFloat 127,
      ''radius_km'' \<mapsto> PFloat (- 1), ''topn'' \<mapsto> PStr ''many'']
      (''origin_mode'' \<mapsto> PStr ''device'', ''origin_label'' \<mapsto> PStr LABEL_MY_LOCATION,
       ''origin_lat'' \<mapsto> PFloat 37, ''origin_lon'' \<mapsto> PFloat 127,
       ''lat'' \<mapsto> PFloat 37, ''lon'' \<mapsto> PFloat 127,
       ''radius_km'' \<mapsto> PFloat (- 1), ''topn'' \<mapsto> PInt 5))
   \<and> ([''origin_mode'' \<mapsto> PStr ''device'', ''origin_lat'' \<mapsto> PFloat 37, ''origin_lon'' \<mapsto> PFloat 127,
      ''radius_km'' \<mapsto> PFloat (- 1), ''topn'' \<mapsto> PStr ''many'']
      (''origin_mode'' \<mapsto> PStr ''device'', ''origin_label'' \<mapsto> PStr LABEL_MY_LOCATION,
       ''origin_lat'' \<mapsto> PFloat 37, ''origin_lon'' \<mapsto> PFloat 127,
       ''lat'' \<mapsto> PFloat 37, ''lon'' \<mapsto> PFloat 127,
       ''radius_km'' \<mapsto> PFloat (- 1), ''topn'' \<mapsto> PInt 5)) ''radius_km'' = Some (PFloat (- 1))"
  using resolver_device_example
    resolver_radius_lenient [of "\<lparr>str_float = (\<lambda>s. None), str_int = (\<lambda>s. None)\<rparr>"
      "[''origin_mode'' \<mapsto> PStr ''device'', ''origin_lat'' \<mapsto> PFloat 37, ''origin_lon'' \<mapsto> PFloat 127,
      ''radius_km'' \<mapsto> PFloat (- 1), ''topn'' \<mapsto> PStr ''many'']" None TypeError]
  by simp

text \<open>
  Claim C3 as stated fails: a negative radius and a radius that is no number are
  resolved (to the negative float and to \<open>None\<close>) rather than rejected, and an absent
  radius is resolved to 3.0 rather than to \<open>None\<close>.
\<close>

theorem resolver_radius_strict_counterexample:
  "origin_resolver_node \<lparr>str_float = (\<lambda>s. None), str_int = (\<lambda>s. None)\<rparr>
       [''origin_mode'' \<mapsto> PStr ''device'', ''origin_lat'' \<mapsto> PFloat 37,
        ''origin_lon'' \<mapsto> PFloat 127, ''radius_km'' \<mapsto> PFloat (- 1)]
     = Inr ([''origin_mode'' \<mapsto> PStr ''device'', ''origin_lat'' \<mapsto> PFloat 37,
        ''origin_lon'' \<mapsto> PFloat 127, ''radius_km'' \<mapsto> PFloat (- 1)]
        (''origin_mode'' \<mapsto> PStr ''device'', ''origin_label'' \<mapsto> PStr LABEL_MY_LOCATION,
         ''origin_lat'' \<mapsto> PFloat 37, ''origin_lon'' \<mapsto> PFloat 127,
         ''lat'' \<mapsto> PFloat 37, ''lon'' \<mapsto> PFloat 127,
         ''radius_km'' \<mapsto> PFloat (- 1), ''topn'' \<mapsto> PInt 5))
   \<and> origin_resolver_node \<lparr>str_float = (\<lambda>s. None), str_int = (\<lambda>s. None)\<rparr>
       [''origin_mode'' \<mapsto> PStr ''device'', ''origin_lat'' \<mapsto> PFloat 37,
        ''origin_lon'' \<mapsto> PFloat 127, ''radius_km'' \<mapsto> PStr ''far'']
     = Inr ([''origin_mode'' \<mapsto> PStr ''device'', ''origin_lat'' \<mapsto> PFloat 37,
        ''origin_lon'' \<mapsto> PFloat 127, ''radius_km'' \<mapsto> PStr ''far'']
        (''origin_mode'' \<mapsto> PStr ''device'', ''origin_label'' \<mapsto> PStr LABEL_MY_LOCATION,
         ''origin_lat'' \<mapsto> PFloat 37, ''origin_lon'' \<mapsto> PFloat 127,
         ''lat'' \<mapsto> PFloat 37, ''lon'' \<mapsto> PFloat 127,
         ''radius_km'' \<mapsto> PNone, ''topn'' \<mapsto> PInt 5))
   \<and> origin_resolver_node \<lparr>str_float = (\<lambda>s. None), str_int = (\<lambda>s. None)\<rparr>
       [''origin_mode'' \<mapsto> PStr ''device'', ''origin_lat'' \<mapsto> PFloat 37,
        ''origin_lon'' \<mapsto> PFloat 127]
     = Inr ([''origin_mode'' \<mapsto> PStr ''device'', ''origin_lat'' \<mapsto> PFloat 37,
        ''origin_lon'' \<mapsto> PFloat 127]
        (''origin_mode'' \<mapsto> PStr ''device'', ''origin_label'' \<mapsto> PStr LABEL_MY_LOCATION,
         ''origin_lat'' \<mapsto> PFloat 37, ''origin_lon'' \<mapsto> PFloat 127,
         ''lat'' \<mapsto> PFloat 37, ''lon'' \<mapsto> PFloat 127,
         ''radius_km'' \<mapsto> PFloat 3, ''topn'' \<mapsto> PInt 5))"
  by (simp add: origin_resolver_node_def or_empty_strip_def sget_def py_or_def strip_device lower_device
        resolve_device_def validate_coords_def resolved_radius_def
        resolved_topn_def sget_default_def)

text \<open>
  Claim C7. The resolver never fails because of \<open>topn\<close>: whether it fails, and with which
  error, does not depend on the value under that key. When it returns, \<open>topn\<close> is 5 for an
  absent key and for a value that does not convert to an integer, and \<open>int(topn)\<close>
  otherwise, whatever its range.
\<close>

theorem resolver_topn_lenient:
  "(origin_resolver_node B (state(''topn'' := v)) = Inl e) = (origin_resolver_node B state = Inl e)
   \<and> (origin_resolver_node B state = Inr out \<longrightarrow>
        out ''topn'' =
          Some (case state ''topn'' of
                  None \<Rightarrow> PInt 5
                | Some t \<Rightarrow> (case py_int B t of Inl err \<Rightarrow> PInt 5 | Inr n \<Rightarrow> PInt n)))"
proof (intro conjI impI)
  show "(origin_resolver_node B (state(''topn'' := v)) = Inl e) = (origin_resolver_node B state = Inl e)"
    by (rule resolver_error_upd) simp
next
  assume "origin_resolver_node B state = Inr out"
  then have "out ''topn'' = Some (resolved_topn B state)"
    by (rule resolver_Inr_radius_topn)
  then show "out ''topn'' =
          Some (case state ''topn'' of
                  None \<Rightarrow> PInt 5
                | Some t \<Rightarrow> (case py_int B t of Inl err \<Rightarrow> PInt 5 | Inr n \<Rightarrow> PInt n))"
    by (simp add: resolved_topn_def sget_default_def split: option.splits)
qed

theorem resolver_topn_lenient_witness:
  "origin_resolver_node \<lparr>str_float = (\<lambda>s. None), str_int = (\<lambda>s. None)\<rparr>
     [''origin_mode'' \<mapsto> PStr ''device'', ''origin_lat'' \<mapsto> PFloat 37, ''origin_lon'' \<mapsto> PFloat 127,
      ''radius_km'' \<mapsto> PFloat (- 1), ''topn'' \<mapsto> PStr ''many'']
   = Inr ([''origin_mode'' \<mapsto> PStr ''device'', ''origin_lat'' \<mapsto> PFloat 37, ''origin_lon'' \<mapsto> PFloat 127,
      ''radius_km'' \<mapsto> PFloat (- 1), ''topn'' \<mapsto> PStr ''many'']
      (''origin_mode'' \<mapsto> PStr ''device'', ''origin_label'' \<mapsto> PStr LABEL_MY_LOCATION,
       ''origin_lat'' \<mapsto> PFloat 37, ''origin_lon'' \<mapsto> PFloat 127,
       ''lat'' \<mapsto> PFloat 37, ''lon'' \<mapsto> PFloat 127,
       ''radius_km'' \<mapsto> PFloat (- 1), ''topn'' \<mapsto> PInt 5))
   \<and> ([''origin_mode'' \<mapsto> PStr ''device'', ''origin_lat'' \<mapsto> PFloat 37, ''origin_lon'' \<mapsto> PFloat 127,
      ''radius_km'' \<mapsto> PFloat (- 1), ''topn'' \<mapsto> PStr ''many'']
      (''origin_mode'' \<mapsto> PStr ''device'', ''origin_label'' \<mapsto> PStr LABEL_MY_LOCATION,
       ''origin_lat'' \<mapsto> PFloat 37, ''origin_lon'' \<mapsto> PFloat 127,
       ''lat'' \<mapsto> PFloat 37, ''lon'' \<mapsto> PFloat 127,
       ''radius_km'' \<mapsto> PFloat (- 1), ''topn'' \<mapsto> PInt 5)) ''topn'' = Some (PInt 5)"
  using resolver_device_example
    resolver_topn_lenient [of "\<lparr>str_float = (\<lambda>s. None), str_int = (\<lambda>s. None)\<rparr>"
      "[''origin_mode'' \<mapsto> PStr ''device'', ''origin_lat'' \<mapsto> PFloat 37, ''origin_lon'' \<mapsto> PFloat 127,
      ''radius_km'' \<mapsto> PFloat (- 1), ''topn'' \<mapsto> PStr ''many'']" None TypeError]
  by simp

subsection \<open>The answer and its sources\<close>

lemma map_err_source_entry:
  "map_err source_entry rs = Inr src \<Longrightarrow> list_all is_dict rs \<and> src = map source_pair rs"
proof (induction rs arbitrary: src)
  case Nil
  then show ?case by simp
next
  case (Cons r rs)
  then obtain y ys where y: "source_entry r = Inr y" and ys: "map_err source_entry rs = Inr ys"
    and src: "src = y # ys"
    by (auto split: sum.splits)
  from y have "is_dict r \<and> y = source_pair r"
    by (cases r) (auto simp: source_entry_def is_dict_def source_pair_def)
  with Cons.IH [OF ys] src show ?case by simp
qed

lemma sources_of_Inr:
  "sources_of recs = Inr src \<Longrightarrow>
     \<exists>rs. py_iter recs = Inr rs \<and> list_all is_dict rs \<and> src = PList (map source_pair rs)"
  by (auto simp: sources_of_def split: sum.splits dest: map_err_source_entry)

text \<open>
  Claim C8. With an empty (or missing) list of recommendations \<open>agent_d\<close> sends no
  request and returns the fixed guidance answer with an empty list of sources. Whenever
  it returns, \<open>sources\<close> holds one \<open>{TITLE, URL}\<close> pair per recommendation, computed from
  the recommendations alone, whichever tier produced the answer.
\<close>

theorem agent_d_empty_and_sources:
  "(\<not> truthy (sget state ''recommendations'') \<longrightarrow>
      agent_d E state
        = (0, Inr (state(''answer'' \<mapsto> PStr NO_RESULT_ANSWER, ''sources'' \<mapsto> PList []))))
   \<and> (snd (agent_d E state) = Inr out \<longrightarrow>
        (\<exists>rs. py_iter (py_or (sget state ''recommendations'') (PList [])) = Inr rs
            \<and> list_all is_dict rs
            \<and> out ''sources'' = Some (PList (map source_pair rs))))"
proof (intro conjI impI)
  assume "\<not> truthy (sget state ''recommendations'')"
  then show "agent_d E state
        = (0, Inr (state(''answer'' \<mapsto> PStr NO_RESULT_ANSWER, ''sources'' \<mapsto> PList [])))"
    by (simp add: agent_d_def py_or_def write_answer_def sources_of_def)
next
  assume "snd (agent_d E state) = Inr out"
  from agent_d_Inr [OF this] obtain a src where
    src: "sources_of (py_or (sget state ''recommendations'') (PList [])) = Inr src"
    and out: "out = state(''answer'' \<mapsto> a, ''sources'' \<mapsto> src)"
    by blast
  from sources_of_Inr [OF src] out
  show "\<exists>rs. py_iter (py_or (sget state ''recommendations'') (PList [])) = Inr rs
            \<and> list_all is_dict rs
            \<and> out ''sources'' = Some (PList (map source_pair rs))"
    by auto
qed

lemma agent_d_example:
  "agent_d \<lparr>bi = \<lparr>str_float = (\<lambda>s. None), str_int = (\<lambda>s. None)\<rparr>, render = (\<lambda>p r c. []),
         conf = \<lparr>AOAI_ENDPOINT = ''e'', AOAI_API_KEY = ''k'', AOAI_DEPLOYMENT = ''d''\<rparr>,
         remote = (\<lambda>q r. Some (PStr ''text'')), fmt = (\<lambda>v. []), lm = correctly_rounded\<rparr>
     [''question'' \<mapsto> PStr ''q'',
      ''recommendations'' \<mapsto> PList [PDict [(''TITLE'', PStr ''A''), (''URL'', PStr ''u''), (''DIST_KM'', PFloat 0)]]]
   = (1, Inr [''question'' \<mapsto> PStr ''q'',
      ''recommendations'' \<mapsto> PList [PDict [(''TITLE'', PStr ''A''), (''URL'', PStr ''u''), (''DIST_KM'', PFloat 0)]],
      ''answer'' \<mapsto> PStr ''text'',
      ''sources'' \<mapsto> PList [PDict [(''TITLE'', PStr ''A''), (''URL'', PStr ''u'')]]])"
  by (simp add: agent_d_def sget_def py_or_def llm_answer_azure_def ENV_MISSING_def is_dict_def
        write_answer_def sources_of_def source_entry_def dget_def)

theorem agent_d_empty_and_sources_witness:
  "\<not> truthy (sget [''question'' \<mapsto> PStr ''q'', ''recommendations'' \<mapsto> PList []] ''recommendations'')
   \<and> agent_d \<lparr>bi = \<lparr>str_float = (\<lambda>s. None), str_int = (\<lambda>s. None)\<rparr>, render = (\<lambda>p r c. []),
         conf = \<lparr>AOAI_ENDPOINT = ''e'', AOAI_API_KEY = ''k'', AOAI_DEPLOYMENT = ''d''\<rparr>,
         remote = (\<lambda>q r. Some (PStr ''text'')), fmt = (\<lambda>v. []), lm = correctly_rounded\<rparr>
       [''question'' \<mapsto> PStr ''q'', ''recommendations'' \<mapsto> PList []]
     = (0, Inr [''question'' \<mapsto> PStr ''q'', ''recommendations'' \<mapsto> PList [],
          ''answer'' \<mapsto> PStr NO_RESULT_ANSWER, ''sources'' \<mapsto> PList []])
   \<and> agent_d \<lparr>bi = \<lparr>str_float = (\<lambda>s. None), str_int = (\<lambda>s. None)\<rparr>, render = (\<lambda>p r c. []),
         conf = \<lparr>AOAI_ENDPOINT = ''e'', AOAI_API_KEY = ''k'', AOAI_DEPLOYMENT = ''d''\<rparr>,
         remote = (\<lambda>q r. Some (PStr ''text'')), fmt = (\<lambda>v. []), lm = correctly_rounded\<rparr>
       [''question'' \<mapsto> PStr ''q'',
        ''recommendations'' \<mapsto> PList [PDict [(''TITLE'', PStr ''A''), (''URL'', PStr ''u''), (''DIST_KM'', PFloat 0)]]]
     = (1, Inr [''question'' \<mapsto> PStr ''q'',
        ''recommendations'' \<mapsto> PList [PDict [(''TITLE'', PStr ''A''), (''URL'', PStr ''u''), (''DIST_KM'', PFloat 0)]],
        ''answer'' \<mapsto> PStr ''text'',
        ''sources'' \<mapsto> PList [PDict [(''TITLE'', PStr ''A''), (''URL'', PStr ''u'')]]])
   \<and> PList (map source_pair [PDict [(''TITLE'', PStr ''A''), (''URL'', PStr ''u''), (''DIST_KM'', PFloat 0)]])
     = PList [PDict [(''TITLE'', PStr ''A''), (''URL'', PStr ''u'')]]"
proof -
  let ?E = "\<lparr>bi = \<lparr>str_float = (\<lambda>s. None), str_int = (\<lambda>s. None)\<rparr>, render = (\<lambda>p r c. []),
         conf = \<lparr>AOAI_ENDPOINT = ''e'', AOAI_API_KEY = ''k'', AOAI_DEPLOYMENT = ''d''\<rparr>,
         remote = (\<lambda>q r. Some (PStr ''text'')), fmt = (\<lambda>v. []), lm = correctly_rounded\<rparr>"
  let ?s0 = "[''question'' \<mapsto> PStr ''q'', ''recommendations'' \<mapsto> PList []]"
  let ?s1 = "[''question'' \<mapsto> PStr ''q'',
        ''recommendations'' \<mapsto> PList [PDict [(''TITLE'', PStr ''A''), (''URL'', PStr ''u''), (''DIST_KM'', PFloat 0)]]]"
  have e: "\<not> truthy (sget ?s0 ''recommendations'')"
    by (simp add: sget_def)
  have src: "PList (map source_pair [PDict [(''TITLE'', PStr ''A''), (''URL'', PStr ''u''), (''DIST_KM'', PFloat 0)]])
     = PList [PDict [(''TITLE'', PStr ''A''), (''URL'', PStr ''u'')]]"
    by (simp add: source_pair_def dget_def)
  from e agent_d_empty_and_sources [of ?s0 ?E]
  have a0: "agent_d ?E ?s0 = (0, Inr (?s0(''answer'' \<mapsto> PStr NO_RESULT_ANSWER, ''sources'' \<mapsto> PList [])))"
    by blast
  from e a0 agent_d_example src show ?thesis by simp
qed

section \<open>Properties of services/rag.py\<close>

lemma map_err_Inr:
  "map_err f xs = Inr ys \<Longrightarrow> length ys = length xs \<and> (\<forall>j < length xs. f (xs ! j) = Inr (ys ! j))"
proof (induction xs arbitrary: ys)
  case Nil
  then show ?case by simp
next
  case (Cons x xs)
  then obtain y ys' where y: "f x = Inr y" and ys': "map_err f xs = Inr ys'" and ys: "ys = y # ys'"
    by (auto split: sum.splits)
  from Cons.IH [OF ys'] y ys show ?case
    by (auto simp: nth_Cons')
qed

lemma map_err_returns:
  "(\<forall>x \<in> set xs. \<exists>y. f x = Inr y) \<Longrightarrow> \<exists>ys. map_err f xs = Inr ys"
proof (induction xs)
  case Nil
  then show ?case by simp
next
  case (Cons x xs)
  then obtain y ys where "f x = Inr y" "map_err f xs = Inr ys" by auto
  then show ?case by simp
qed

lemma cosine_scores_length:
  "cosine_scores doc_mat q_vec = Inr scores \<Longrightarrow> length scores = length doc_mat"
  by (auto simp: cosine_scores_def matvec_def Let_def split: if_splits sum.splits)

lemma cosine_scores_zero_query:
  "vec_norm q_vec = 0 \<Longrightarrow> cosine_scores doc_mat q_vec = Inr (replicate (length doc_mat) 0)"
  by (simp add: cosine_scores_def)

lemma cosine_scores_zero_doc:
  assumes "cosine_scores doc_mat q_vec = Inr scores" "i < length doc_mat" "vec_norm (doc_mat ! i) = 0"
  shows "scores ! i = 0"
proof (cases "vec_norm q_vec = 0")
  case True
  with assms(1) have "scores = replicate (length doc_mat) 0"
    by (simp add: cosine_scores_def)
  with assms(2) show ?thesis by simp
next
  case False
  with assms(1) have "scores = map2 (\<lambda>n d. if n > 0 then d / (n * vec_norm q_vec) else 0)
      (map vec_norm doc_mat) (map (\<lambda>row. dot row q_vec) doc_mat)"
    by (auto simp: cosine_scores_def matvec_def Let_def split: if_splits)
  with assms(2,3) show ?thesis by simp
qed

lemma cosine_scores_returns:
  "list_all (\<lambda>row. length row = length q_vec) doc_mat \<Longrightarrow> \<exists>scores. cosine_scores doc_mat q_vec = Inr scores"
  by (simp add: cosine_scores_def matvec_def Let_def)

text \<open>
  Claim C9. \<open>search\<close> returns the empty list whenever the query is empty, the index has
  no documents, no embeddings or no embedder; \<open>build_index([])\<close> stores the empty index,
  on which every search returns the empty list. A query of zero norm scores 0 against
  every document, a document of zero norm scores 0 against every query, and the scoring
  raises nothing when the vectors have the length of the query.
\<close>

theorem search_empty_and_zero_norm:
  "(query = [] \<or> docs idx = [] \<or> embeddings idx = None \<or> embedder idx = None
      \<longrightarrow> search A idx query k = Inr [])
   \<and> build_index G [] = Inr empty_index
   \<and> search A empty_index query k = Inr []
   \<and> (vec_norm q0 = 0 \<longrightarrow> cosine_scores m0 q0 = Inr (replicate (length m0) 0))
   \<and> (cosine_scores doc_mat q_vec = Inr scores \<and> i < length doc_mat \<and> vec_norm (doc_mat ! i) = 0
        \<longrightarrow> scores ! i = 0)
   \<and> (list_all (\<lambda>row. length row = length q_vec) doc_mat
        \<longrightarrow> (\<exists>sc. cosine_scores doc_mat q_vec = Inr sc))"
proof (intro conjI impI)
  assume "query = [] \<or> docs idx = [] \<or> embeddings idx = None \<or> embedder idx = None"
  then show "search A idx query k = Inr []"
    by (auto simp: search_def split: option.splits)
next
  show "build_index G [] = Inr empty_index" by (simp add: build_index_def)
  show "search A empty_index query k = Inr []" by (simp add: search_def empty_index_def)
next
  assume "vec_norm q0 = 0"
  then show "cosine_scores m0 q0 = Inr (replicate (length m0) 0)"
    by (rule cosine_scores_zero_query)
next
  assume "cosine_scores doc_mat q_vec = Inr scores \<and> i < length doc_mat \<and> vec_norm (doc_mat ! i) = 0"
  then show "scores ! i = 0" using cosine_scores_zero_doc by blast
next
  assume "list_all (\<lambda>row. length row = length q_vec) doc_mat"
  then show "\<exists>sc. cosine_scores doc_mat q_vec = Inr sc" by (rule cosine_scores_returns)
qed

theorem search_empty_and_zero_norm_witness:
  "search stable_argsort
     \<lparr>docs = [\<lparr>doc_id = 0, doc_title = ''A'', doc_url = ''a'', doc_text = ''A | a'', doc_meta = []\<rparr>],
      embeddings = Some [[1, 0]], embedder = Some (\<lambda>q. Inr [1, 0])\<rparr> [] 5 = Inr []
   \<and> vec_norm [0, 0] = 0
   \<and> cosine_scores [[1, 0]] [0, 0] = Inr [0]
   \<and> cosine_scores [[1, 0], [0, 0]] [1, 0] = Inr [1, 0]
   \<and> vec_norm ([[1, 0], [0, 0]] ! 1) = 0
   \<and> [1, 0 :: real] ! 1 = 0
   \<and> list_all (\<lambda>row. length row = length [1, 0 :: real]) [[1, 0], [0, 0 :: real]]"
proof -
  let ?idx = "\<lparr>docs = [\<lparr>doc_id = 0, doc_title = ''A'', doc_url = ''a'', doc_text = ''A | a'', doc_meta = []\<rparr>],
      embeddings = Some [[1, 0]], embedder = Some (\<lambda>q. Inr [1, 0])\<rparr>"
  have n: "vec_norm [0, 0] = 0" by (simp add: vec_norm_def)
  have c: "cosine_scores [[1, 0], [0, 0]] [1, 0] = Inr [1, 0]"
    by (simp add: cosine_scores_def vec_norm_def matvec_def dot_def)
  from n c
    search_empty_and_zero_norm [of "[]" ?idx stable_argsort 5 _ "[0, 0]" "[[1, 0]]"
      "[[1, 0], [0, 0]]" "[1, 0]" "[1, 0]" 1]
  show ?thesis by simp
qed

subsection \<open>The contract of argsort, and two sorts that meet it\<close>

lemma argsort_on_length: "argsort_on A xs \<Longrightarrow> length (A xs) = length xs"
proof -
  assume a: "argsort_on A xs"
  then have d: "distinct (A xs)" and s: "set (A xs) = {0..<length xs}"
    by (simp_all add: argsort_on_def)
  have "length (A xs) = card (set (A xs))"
    using d by (rule distinct_card [symmetric])
  also have "\<dots> = card {0..<length xs}" by (simp only: s)
  also have "\<dots> = length xs" by simp
  finally show ?thesis .
qed

lemma argsort_by_sort_key:
  assumes ps: "set ps = set (zip xs [0..<length xs])" and d: "distinct (map snd ps)"
  shows "distinct (map snd (sort_key fst ps))"
    and "set (map snd (sort_key fst ps)) = {0..<length xs}"
    and "sorted (map ((!) xs) (map snd (sort_key fst ps)))"
proof -
  from d have "distinct ps" and "inj_on snd (set ps)"
    by (simp_all add: distinct_map)
  then show "distinct (map snd (sort_key fst ps))"
    by (simp add: distinct_map)
  have "map snd (zip xs [0..<length xs]) = [0..<length xs]"
    by (simp add: map_snd_zip)
  then have "snd ` set (zip xs [0..<length xs]) = set [0..<length xs]"
    by (simp only: set_map [symmetric])
  then show "set (map snd (sort_key fst ps)) = {0..<length xs}"
    by (simp add: ps)
  have "\<And>z. z \<in> set ps \<Longrightarrow> xs ! snd z = fst z"
    unfolding ps by (auto simp: set_zip)
  then have "map ((!) xs) (map snd (sort_key fst ps)) = map fst (sort_key fst ps)"
    by simp
  then show "sorted (map ((!) xs) (map snd (sort_key fst ps)))"
    by (simp only: sorted_sort_key)
qed

lemma stable_argsort_meets_contract: "argsort_on stable_argsort xs"
  unfolding argsort_on_def stable_argsort_def
  by (intro conjI argsort_by_sort_key) simp_all

lemma reversing_argsort_meets_contract: "argsort_on reversing_argsort xs"
  unfolding argsort_on_def reversing_argsort_def
  by (intro conjI argsort_by_sort_key) (simp_all add: rev_map [symmetric])

lemma sorted_wrt_filter_nth:
  "sorted_wrt R (filter P ys) \<Longrightarrow> i < j \<Longrightarrow> j < length ys \<Longrightarrow> P (ys ! i) \<Longrightarrow> P (ys ! j)
     \<Longrightarrow> R (ys ! i) (ys ! j)"
proof (induction ys arbitrary: i j)
  case Nil
  then show ?case by simp
next
  case (Cons y ys)
  show ?case
  proof (cases i)
    case 0
    with Cons.prems obtain j' where j: "j = Suc j'" "j' < length ys" "P (ys ! j')" "P y"
      by (cases j) auto
    then have "ys ! j' \<in> set (filter P ys)" by simp
    with Cons.prems(1) j 0 show ?thesis by simp
  next
    case (Suc i')
    with Cons.prems obtain j' where j: "j = Suc j'" "i' < j'" "j' < length ys"
      "P (ys ! i')" "P (ys ! j')"
      by (cases j) auto
    from Cons.prems(1) have "sorted_wrt R (filter P ys)"
      by (simp split: if_splits)
    from Cons.IH [OF this j(2,3,4,5)] Suc j(1) show ?thesis by simp
  qed
qed

lemma stable_argsort_is_stable: "stable_on stable_argsort xs"
  unfolding stable_on_def
proof (intro allI impI)
  let ?zs = "zip xs [0..<length xs]"
  let ?ss = "sort_key fst ?zs"
  fix i j
  assume a: "i < j \<and> j < length (stable_argsort xs)
    \<and> xs ! (stable_argsort xs ! i) = xs ! (stable_argsort xs ! j)"
  then have ij: "i < j" and j: "j < length ?ss" and i: "i < length ?ss"
    by (simp_all add: stable_argsort_def)
  have fst_eq: "\<And>z. z \<in> set ?ss \<Longrightarrow> xs ! snd z = fst z"
    by (auto simp: set_zip)
  from i j have "?ss ! i \<in> set ?ss" "?ss ! j \<in> set ?ss"
    by (simp_all only: nth_mem)
  then have "xs ! snd (?ss ! i) = fst (?ss ! i)" "xs ! snd (?ss ! j) = fst (?ss ! j)"
    by (simp_all only: fst_eq)
  moreover have nth_i: "stable_argsort xs ! i = snd (?ss ! i)"
    and nth_j: "stable_argsort xs ! j = snd (?ss ! j)"
    using i j by (simp_all only: stable_argsort_def nth_map)
  moreover from a have "xs ! (stable_argsort xs ! i) = xs ! (stable_argsort xs ! j)"
    by blast
  ultimately have keys: "fst (?ss ! i) = fst (?ss ! j)"
    by simp
  have "sorted_wrt (\<lambda>a b. a < b) (map snd ?zs)"
    by (simp add: sorted_wrt_upt)
  then have "sorted_wrt (\<lambda>a b. snd a < snd b) ?zs"
    by (simp only: sorted_wrt_map)
  then have "sorted_wrt (\<lambda>a b. snd a < snd b) (filter (\<lambda>z. fst z = fst (?ss ! j)) ?zs)"
    by (rule sorted_wrt_filter)
  then have "sorted_wrt (\<lambda>a b. snd a < snd b) (filter (\<lambda>z. fst z = fst (?ss ! j)) ?ss)"
    by (simp only: sort_key_stable)
  from sorted_wrt_filter_nth [OF this ij j keys refl]
  show "stable_argsort xs ! i < stable_argsort xs ! j"
    by (simp only: nth_i nth_j)
qed

subsection \<open>The ranking\<close>

text \<open>In a built index the identifier of a document is its position: insertion order.\<close>

lemma make_doc_id: "make_doc G ir = Inr d \<Longrightarrow> doc_id d = fst ir"
  by (auto simp: make_doc_def split: pyval.splits sum.splits)

lemma build_index_docs:
  assumes "build_index G rows = Inr idx" "rows \<noteq> []"
  shows "length (docs idx) = length rows"
    and "\<forall>i < length rows. doc_id (docs idx ! i) = i"
    and "embeddings idx \<noteq> None" and "embedder idx \<noteq> None"
proof -
  from assms obtain ds em where
    ds: "map_err (make_doc G) (zip [0..<length rows] rows) = Inr ds"
    and idx: "idx = \<lparr>docs = ds, embeddings = Some em,
                     embedder = Some (fst (get_embedder G (map doc_text ds)))\<rparr>"
    by (auto simp: build_index_def Let_def split: sum.splits)
  from map_err_Inr [OF ds] have len: "length ds = length rows"
    and each: "\<And>j. j < length rows \<Longrightarrow> make_doc G (zip [0..<length rows] rows ! j) = Inr (ds ! j)"
    by auto
  show "length (docs idx) = length rows" by (simp add: idx len)
  show "\<forall>i < length rows. doc_id (docs idx ! i) = i"
  proof (intro allI impI)
    fix i assume i: "i < length rows"
    from make_doc_id [OF each [OF i]] i show "doc_id (docs idx ! i) = i"
      by (simp add: idx)
  qed
  show "embeddings idx \<noteq> None" "embedder idx \<noteq> None" by (simp_all add: idx)
qed

lemma search_Inr:
  assumes "docs idx \<noteq> []" "query \<noteq> []" "embeddings idx = Some doc_mat" "embedder idx = Some emb"
    "search A idx query k = Inr hits"
  shows "\<exists>q_vec scores.
           emb query = Inr q_vec
         \<and> cosine_scores doc_mat q_vec = Inr scores
         \<and> map_err (make_hit (docs idx) scores) (top_k A scores k) = Inr hits"
  using assms unfolding search_def
  by (auto split: sum.splits if_splits)

lemma make_hit_Inr:
  "make_hit ds scores i = Inr h \<Longrightarrow>
     i < length ds \<and> i < length scores
     \<and> hit_TITLE h = doc_title (ds ! i) \<and> hit_URL h = doc_url (ds ! i)
     \<and> SNIPPET h = make_snippet (doc_text (ds ! i)) \<and> SCORE h = scores ! i"
  by (auto simp: make_hit_def split: if_splits)

lemma top_k_nonneg: "0 \<le> k \<Longrightarrow> top_k A scores k = take (nat k) (A (map uminus scores))"
  by (simp add: top_k_def py_take_def)

lemma sorted_uminus_rev: "sorted (map uminus xs) \<Longrightarrow> sorted (rev xs)" for xs :: "real list"
  by (simp add: sorted_wrt_rev sorted_wrt_map)

lemma search_returns:
  assumes "docs idx \<noteq> []" "query \<noteq> []" "embeddings idx = Some doc_mat" "embedder idx = Some emb"
    "doc_mat \<noteq> []" "length doc_mat \<le> length (docs idx)" "emb query = Inr q_vec"
    "cosine_scores doc_mat q_vec = Inr scores" "argsort_on A (map uminus scores)"
  shows "\<exists>hits. search A idx query k = Inr hits"
proof -
  have n: "length scores = length doc_mat"
    using assms(8) by (rule cosine_scores_length)
  have "set (top_k A scores k) \<subseteq> set (A (map uminus scores))"
    by (auto simp: top_k_def py_take_def dest: in_set_takeD)
  also have "\<dots> = {0..<length scores}"
    using assms(9) by (simp add: argsort_on_def)
  finally have "\<forall>i \<in> set (top_k A scores k). \<exists>h. make_hit (docs idx) scores i = Inr h"
    using n assms(6) by (auto simp: make_hit_def)
  then obtain hits where "map_err (make_hit (docs idx) scores) (top_k A scores k) = Inr hits"
    using map_err_returns by blast
  then show ?thesis
    using assms by (simp add: search_def)
qed

text \<open>
  Claim C10, as amended. An index built from a non-empty list of rows has documents,
  embeddings and an embedder, and the position of a document is its insertion order. On
  such an index and a non-empty query, \<open>search\<close> returns when the embedder encodes the
  query, the shapes agree and \<open>argsort\<close> meets its contract. What it returns for
  \<open>k \<ge> 0\<close> has at most \<open>k\<close> entries, each the title, URL, snippet and cosine score of the
  document \<open>argsort\<close> picked at that rank; under the contract of \<open>argsort\<close> there are
  \<open>min(k, N)\<close> of them in non-increasing order of score; and entries of equal score are
  in insertion order when \<open>argsort\<close> is stable on the scores.
\<close>

theorem search_ranked:
  "(build_index G rows = Inr built \<and> rows \<noteq> [] \<longrightarrow>
      docs built \<noteq> [] \<and> embeddings built \<noteq> None \<and> embedder built \<noteq> None
    \<and> length (docs built) = length rows
    \<and> (\<forall>i < length rows. doc_id (docs built ! i) = i))
   \<and> (docs idx \<noteq> [] \<and> embeddings idx = Some doc_mat \<and> embedder idx = Some emb
    \<and> query \<noteq> [] \<and> doc_mat \<noteq> [] \<and> length doc_mat \<le> length (docs idx)
    \<and> emb query = Inr q_vec' \<and> cosine_scores doc_mat q_vec' = Inr scores'
    \<and> argsort_on A (map uminus scores')
    \<longrightarrow> (\<exists>hs. search A idx query k = Inr hs))
   \<and> (docs idx \<noteq> [] \<and> embeddings idx = Some doc_mat \<and> embedder idx = Some emb
   \<and> query \<noteq> [] \<and> 0 \<le> k \<and> search A idx query k = Inr hits \<longrightarrow>
     (\<exists>q_vec scores.
         emb query = Inr q_vec
       \<and> cosine_scores doc_mat q_vec = Inr scores
       \<and> int (length hits) \<le> k
       \<and> length hits = length (top_k A scores k)
       \<and> (\<forall>j < length hits.
             top_k A scores k ! j < length (docs idx)
           \<and> hit_TITLE (hits ! j) = doc_title (docs idx ! (top_k A scores k ! j))
           \<and> hit_URL (hits ! j) = doc_url (docs idx ! (top_k A scores k ! j))
           \<and> SNIPPET (hits ! j) = make_snippet (doc_text (docs idx ! (top_k A scores k ! j)))
           \<and> SCORE (hits ! j) = scores ! (top_k A scores k ! j))
       \<and> (argsort_on A (map uminus scores) \<longrightarrow>
             length hits = min (nat k) (length doc_mat) \<and> sorted (rev (map SCORE hits)))
       \<and> (stable_on A (map uminus scores) \<longrightarrow>
             (\<forall>i j. i < j \<and> j < length hits \<and> SCORE (hits ! i) = SCORE (hits ! j)
                \<longrightarrow> top_k A scores k ! i < top_k A scores k ! j))))"
proof (intro conjI impI)
  assume b: "build_index G rows = Inr built \<and> rows \<noteq> []"
  then have built: "build_index G rows = Inr built" and rows: "rows \<noteq> []"
    by simp_all
  from build_index_docs [OF built rows] rows
  show "docs built \<noteq> []" and "embeddings built \<noteq> None" and "embedder built \<noteq> None"
    and "length (docs built) = length rows"
    and "\<forall>i < length rows. doc_id (docs built ! i) = i"
    by auto
next
  assume "docs idx \<noteq> [] \<and> embeddings idx = Some doc_mat \<and> embedder idx = Some emb
    \<and> query \<noteq> [] \<and> doc_mat \<noteq> [] \<and> length doc_mat \<le> length (docs idx)
    \<and> emb query = Inr q_vec' \<and> cosine_scores doc_mat q_vec' = Inr scores'
    \<and> argsort_on A (map uminus scores')"
  then show "\<exists>hs. search A idx query k = Inr hs"
    using search_returns by blast
next
  assume a: "docs idx \<noteq> [] \<and> embeddings idx = Some doc_mat \<and> embedder idx = Some emb
   \<and> query \<noteq> [] \<and> 0 \<le> k \<and> search A idx query k = Inr hits"
  then have k: "0 \<le> k" by simp
  from a search_Inr [of idx query doc_mat emb A k hits] obtain q_vec scores where
    em: "emb query = Inr q_vec"
    and sc: "cosine_scores doc_mat q_vec = Inr scores"
    and hs: "map_err (make_hit (docs idx) scores) (top_k A scores k) = Inr hits"
    by blast
  let ?negs = "map uminus scores"
  let ?picks = "top_k A scores k"
  have picks: "?picks = take (nat k) (A ?negs)" using k by (rule top_k_nonneg)
  from map_err_Inr [OF hs] have len: "length hits = length ?picks"
    and each: "\<And>j. j < length ?picks \<Longrightarrow> make_hit (docs idx) scores (?picks ! j) = Inr (hits ! j)"
    by auto
  have fields: "\<And>j. j < length hits \<Longrightarrow>
             ?picks ! j < length (docs idx) \<and> ?picks ! j < length scores
           \<and> hit_TITLE (hits ! j) = doc_title (docs idx ! (?picks ! j))
           \<and> hit_URL (hits ! j) = doc_url (docs idx ! (?picks ! j))
           \<and> SNIPPET (hits ! j) = make_snippet (doc_text (docs idx ! (?picks ! j)))
           \<and> SCORE (hits ! j) = scores ! (?picks ! j)"
    using each len make_hit_Inr by metis
  have le: "int (length hits) \<le> k" using len picks k by simp
  have scores_of: "map SCORE hits = map ((!) scores) ?picks"
    using len fields by (auto intro: nth_equalityI)
  have ranked: "length hits = min (nat k) (length doc_mat) \<and> sorted (rev (map SCORE hits))"
    if ok: "argsort_on A ?negs"
  proof
    from argsort_on_length [OF ok] cosine_scores_length [OF sc]
    show "length hits = min (nat k) (length doc_mat)"
      by (simp add: len picks min.commute)
    have "sorted (take (nat k) (map ((!) ?negs) (A ?negs)))"
      using ok by (intro sorted_wrt_take) (simp add: argsort_on_def)
    then have "sorted (map ((!) ?negs) ?picks)"
      by (simp add: picks take_map)
    moreover have "map ((!) ?negs) ?picks = map uminus (map ((!) scores) ?picks)"
    proof (rule nth_equalityI)
      show "length (map ((!) ?negs) ?picks) = length (map uminus (map ((!) scores) ?picks))"
        by simp
      fix j assume "j < length (map ((!) ?negs) ?picks)"
      then have j: "j < length hits" by (simp add: len)
      with fields [OF j] show "map ((!) ?negs) ?picks ! j = map uminus (map ((!) scores) ?picks) ! j"
        by (simp add: len)
    qed
    ultimately have "sorted (map uminus (map SCORE hits))"
      by (simp add: scores_of)
    then show "sorted (rev (map SCORE hits))"
      by (rule sorted_uminus_rev)
  qed
  have ties: "\<forall>i j. i < j \<and> j < length hits \<and> SCORE (hits ! i) = SCORE (hits ! j)
                \<longrightarrow> ?picks ! i < ?picks ! j"
    if st: "stable_on A ?negs"
  proof (intro allI impI)
    fix i j
    assume ij: "i < j \<and> j < length hits \<and> SCORE (hits ! i) = SCORE (hits ! j)"
    then have i: "i < length hits" and j: "j < length hits" by auto
    from ij fields [OF i] fields [OF j]
    have eq: "scores ! (?picks ! i) = scores ! (?picks ! j)"
      and bi: "?picks ! i < length scores" and bj: "?picks ! j < length scores"
      by auto
    have pi: "?picks ! i = A ?negs ! i" and pj: "?picks ! j = A ?negs ! j"
      and jl: "j < length (A ?negs)"
      using i j len picks by auto
    from eq bi bj have "?negs ! (A ?negs ! i) = ?negs ! (A ?negs ! j)"
      by (simp add: pi pj)
    with st ij jl have "A ?negs ! i < A ?negs ! j"
      unfolding stable_on_def by blast
    then show "?picks ! i < ?picks ! j" by (simp add: pi pj)
  qed
  from em sc le len fields ranked ties
  show "\<exists>q_vec scores.
         emb query = Inr q_vec
       \<and> cosine_scores doc_mat q_vec = Inr scores
       \<and> int (length hits) \<le> k
       \<and> length hits = length (top_k A scores k)
       \<and> (\<forall>j < length hits.
             top_k A scores k ! j < length (docs idx)
           \<and> hit_TITLE (hits ! j) = doc_title (docs idx ! (top_k A scores k ! j))
           \<and> hit_URL (hits ! j) = doc_url (docs idx ! (top_k A scores k ! j))
           \<and> SNIPPET (hits ! j) = make_snippet (doc_text (docs idx ! (top_k A scores k ! j)))
           \<and> SCORE (hits ! j) = scores ! (top_k A scores k ! j))
       \<and> (argsort_on A (map uminus scores) \<longrightarrow>
             length hits = min (nat k) (length doc_mat) \<and> sorted (rev (map SCORE hits)))
       \<and> (stable_on A (map uminus scores) \<longrightarrow>
             (\<forall>i j. i < j \<and> j < length hits \<and> SCORE (hits ! i) = SCORE (hits ! j)
                \<longrightarrow> top_k A scores k ! i < top_k A scores k ! j))"
    by blast
qed

lemma strip_letters: "strip ''A'' = ''A''" "strip ''B'' = ''B''" "strip ''C'' = ''C''"
  "strip ''a'' = ''a''" "strip ''b'' = ''b''" "strip ''c'' = ''c''"
  by code_simp+

lemma build_index_example:
  "build_index
     \<lparr>to_str = (\<lambda>v. case v of PStr s \<Rightarrow> s | _ \<Rightarrow> []),
      get_embedder = (\<lambda>corpus. (\<lambda>q. Inr [1, 0], [[1, 0], [0, 1], [1, 0]]))\<rparr>
     [PDict [(''TITLE'', PStr ''A''), (''URL'', PStr ''a'')],
      PDict [(''TITLE'', PStr ''B''), (''URL'', PStr ''b'')],
      PDict [(''TITLE'', PStr ''C''), (''URL'', PStr ''c'')]]
   = Inr \<lparr>docs = [\<lparr>doc_id = 0, doc_title = ''A'', doc_url = ''a'', doc_text = ''A | a'',
                doc_meta = [(''addr'', PNone), (''operating'', PNone), (''fee'', PNone)]\<rparr>,
              \<lparr>doc_id = 1, doc_title = ''B'', doc_url = ''b'', doc_text = ''B | b'',
                doc_meta = [(''addr'', PNone), (''operating'', PNone), (''fee'', PNone)]\<rparr>,
              \<lparr>doc_id = 2, doc_title = ''C'', doc_url = ''c'', doc_text = ''C | c'',
                doc_meta = [(''addr'', PNone), (''operating'', PNone), (''fee'', PNone)]\<rparr>],
      embeddings = Some [[1, 0], [0, 1], [1, 0]],
      embedder = Some (\<lambda>q. Inr [1, 0])\<rparr>"
  by (simp add: build_index_def make_doc_def or_empty_strip_def py_or_def dget_def strip_letters
        concat_fields_def CONCAT_KEYS_def np_array_def upt_rec [of 0] upt_rec [of 1] upt_rec [of 2])

lemma search_example_scores:
  "cosine_scores [[1, 0], [0, 1], [1, 0]] [1, 0] = Inr [1, 0, 1]"
  by (simp add: cosine_scores_def vec_norm_def matvec_def dot_def)

lemma stable_argsort_example: "stable_argsort [- 1, 0, - 1] = [0, 2, 1]"
  by code_simp

lemma reversing_argsort_example: "reversing_argsort [- 1, 0, - 1] = [2, 0, 1]"
  by code_simp

lemma search_example:
  "search stable_argsort
     \<lparr>docs = [\<lparr>doc_id = 0, doc_title = ''A'', doc_url = ''a'', doc_text = ''A | a'',
                doc_meta = [(''addr'', PNone), (''operating'', PNone), (''fee'', PNone)]\<rparr>,
              \<lparr>doc_id = 1, doc_title = ''B'', doc_url = ''b'', doc_text = ''B | b'',
                doc_meta = [(''addr'', PNone), (''operating'', PNone), (''fee'', PNone)]\<rparr>,
              \<lparr>doc_id = 2, doc_title = ''C'', doc_url = ''c'', doc_text = ''C | c'',
                doc_meta = [(''addr'', PNone), (''operating'', PNone), (''fee'', PNone)]\<rparr>],
      embeddings = Some [[1, 0], [0, 1], [1, 0]],
      embedder = Some (\<lambda>q. Inr [1, 0])\<rparr> ''x'' 2
   = Inr [\<lparr>hit_TITLE = ''A'', hit_URL = ''a'', SNIPPET = make_snippet ''A | a'', SCORE = 1\<rparr>,
          \<lparr>hit_TITLE = ''C'', hit_URL = ''c'', SNIPPET = make_snippet ''C | c'', SCORE = 1\<rparr>]"
  by (simp add: search_def search_example_scores top_k_def py_take_def stable_argsort_example
        make_hit_def)

text \<open>
  Three documents, the first and the third with the score 1: with a stable \<open>argsort\<close> the
  two best are the first and the third, in that order.
\<close>

theorem search_ranked_witness:
  "build_index
     \<lparr>to_str = (\<lambda>v. case v of PStr s \<Rightarrow> s | _ \<Rightarrow> []),
      get_embedder = (\<lambda>corpus. (\<lambda>q. Inr [1, 0], [[1, 0], [0, 1], [1, 0]]))\<rparr>
     [PDict [(''TITLE'', PStr ''A''), (''URL'', PStr ''a'')],
      PDict [(''TITLE'', PStr ''B''), (''URL'', PStr ''b'')],
      PDict [(''TITLE'', PStr ''C''), (''URL'', PStr ''c'')]]
   = Inr \<lparr>docs = [\<lparr>doc_id = 0, doc_title = ''A'', doc_url = ''a'', doc_text = ''A | a'',
                doc_meta = [(''addr'', PNone), (''operating'', PNone), (''fee'', PNone)]\<rparr>,
              \<lparr>doc_id = 1, doc_title = ''B'', doc_url = ''b'', doc_text = ''B | b'',
                doc_meta = [(''addr'', PNone), (''operating'', PNone), (''fee'', PNone)]\<rparr>,
              \<lparr>doc_id = 2, doc_title = ''C'', doc_url = ''c'', doc_text = ''C | c'',
                doc_meta = [(''addr'', PNone), (''operating'', PNone), (''fee'', PNone)]\<rparr>],
      embeddings = Some [[1, 0], [0, 1], [1, 0]],
      embedder = Some (\<lambda>q. Inr [1, 0])\<rparr>
   \<and> argsort_on stable_argsort (map uminus [1, 0, 1])
   \<and> stable_on stable_argsort (map uminus [1, 0, 1])
   \<and> cosine_scores [[1, 0], [0, 1], [1, 0]] [1, 0] = Inr [1, 0, 1]
   \<and> search stable_argsort
     \<lparr>docs = [\<lparr>doc_id = 0, doc_title = ''A'', doc_url = ''a'', doc_text = ''A | a'',
                doc_meta = [(''addr'', PNone), (''operating'', PNone), (''fee'', PNone)]\<rparr>,
              \<lparr>doc_id = 1, doc_title = ''B'', doc_url = ''b'', doc_text = ''B | b'',
                doc_meta = [(''addr'', PNone), (''operating'', PNone), (''fee'', PNone)]\<rparr>,
              \<lparr>doc_id = 2, doc_title = ''C'', doc_url = ''c'', doc_text = ''C | c'',
                doc_meta = [(''addr'', PNone), (''operating'', PNone), (''fee'', PNone)]\<rparr>],
      embeddings = Some [[1, 0], [0, 1], [1, 0]],
      embedder = Some (\<lambda>q. Inr [1, 0])\<rparr> ''x'' 2
   = Inr [\<lparr>hit_TITLE = ''A'', hit_URL = ''a'', SNIPPET = make_snippet ''A | a'', SCORE = 1\<rparr>,
          \<lparr>hit_TITLE = ''C'', hit_URL = ''c'', SNIPPET = make_snippet ''C | c'', SCORE = 1\<rparr>]
   \<and> top_k stable_argsort [1, 0, 1] 2 = [0, 2]
   \<and> sorted (rev (map SCORE
        [\<lparr>hit_TITLE = ''A'', hit_URL = ''a'', SNIPPET = make_snippet ''A | a'', SCORE = 1\<rparr>,
         \<lparr>hit_TITLE = ''C'', hit_URL = ''c'', SNIPPET = make_snippet ''C | c'', SCORE = 1\<rparr>]))"
proof -
  let ?G = "\<lparr>to_str = (\<lambda>v. case v of PStr s \<Rightarrow> s | _ \<Rightarrow> []),
      get_embedder = (\<lambda>corpus. (\<lambda>q. Inr [1, 0], [[1, 0], [0, 1], [1, 0]]))\<rparr>"
  let ?rows = "[PDict [(''TITLE'', PStr ''A''), (''URL'', PStr ''a'')],
      PDict [(''TITLE'', PStr ''B''), (''URL'', PStr ''b'')],
      PDict [(''TITLE'', PStr ''C''), (''URL'', PStr ''c'')]]"
  let ?idx = "\<lparr>docs = [\<lparr>doc_id = 0, doc_title = ''A'', doc_url = ''a'', doc_text = ''A | a'',
                doc_meta = [(''addr'', PNone), (''operating'', PNone), (''fee'', PNone)]\<rparr>,
              \<lparr>doc_id = 1, doc_title = ''B'', doc_url = ''b'', doc_text = ''B | b'',
                doc_meta = [(''addr'', PNone), (''operating'', PNone), (''fee'', PNone)]\<rparr>,
              \<lparr>doc_id = 2, doc_title = ''C'', doc_url = ''c'', doc_text = ''C | c'',
                doc_meta = [(''addr'', PNone), (''operating'', PNone), (''fee'', PNone)]\<rparr>],
      embeddings = Some [[1, 0], [0, 1], [1, 0]],
      embedder = Some (\<lambda>q. Inr [1, 0])\<rparr>"
  let ?hits = "[\<lparr>hit_TITLE = ''A'', hit_URL = ''a'', SNIPPET = make_snippet ''A | a'', SCORE = 1\<rparr>,
          \<lparr>hit_TITLE = ''C'', hit_URL = ''c'', SNIPPET = make_snippet ''C | c'', SCORE = 1\<rparr>]"
  have t: "top_k stable_argsort [1, 0, 1] 2 = [0, 2]"
    by (simp add: top_k_def py_take_def stable_argsort_example)
  from build_index_example search_example_scores search_example t
    stable_argsort_meets_contract [of "map uminus [1, 0, 1]"]
    stable_argsort_is_stable [of "map uminus [1, 0, 1]"]
    search_ranked [of ?G ?rows ?idx ?idx "[[1, 0], [0, 1], [1, 0]]" "\<lambda>q. Inr [1, 0]" "''x''"
       "[1, 0]" "[1, 0, 1]" stable_argsort 2 ?hits]
  show ?thesis by simp
qed

text \<open>
  Claim C10 as stated fails. With \<open>k = -1\<close> and three documents the slice \<open>[:k]\<close> keeps two
  results, more than \<open>k\<close>. And an \<open>argsort\<close> that meets the contract of numpy's default
  kind can put two documents of equal score in the reverse of their insertion order.
\<close>

theorem search_ranked_counterexample:
  "search stable_argsort
     \<lparr>docs = [\<lparr>doc_id = 0, doc_title = ''A'', doc_url = ''a'', doc_text = ''A | a'',
                doc_meta = [(''addr'', PNone), (''operating'', PNone), (''fee'', PNone)]\<rparr>,
              \<lparr>doc_id = 1, doc_title = ''B'', doc_url = ''b'', doc_text = ''B | b'',
                doc_meta = [(''addr'', PNone), (''operating'', PNone), (''fee'', PNone)]\<rparr>,
              \<lparr>doc_id = 2, doc_title = ''C'', doc_url = ''c'', doc_text = ''C | c'',
                doc_meta = [(''addr'', PNone), (''operating'', PNone), (''fee'', PNone)]\<rparr>],
      embeddings = Some [[1, 0], [0, 1], [1, 0]],
      embedder = Some (\<lambda>q. Inr [1, 0])\<rparr> ''x'' (- 1)
   = Inr [\<lparr>hit_TITLE = ''A'', hit_URL = ''a'', SNIPPET = make_snippet ''A | a'', SCORE = 1\<rparr>,
          \<lparr>hit_TITLE = ''C'', hit_URL = ''c'', SNIPPET = make_snippet ''C | c'', SCORE = 1\<rparr>]
   \<and> \<not> int (length
        [\<lparr>hit_TITLE = ''A'', hit_URL = ''a'', SNIPPET = make_snippet ''A | a'', SCORE = 1\<rparr>,
         \<lparr>hit_TITLE = ''C'', hit_URL = ''c'', SNIPPET = make_snippet ''C | c'', SCORE = 1\<rparr>]) \<le> - 1
   \<and> argsort_on reversing_argsort (map uminus [1, 0, 1])
   \<and> search reversing_argsort
     \<lparr>docs = [\<lparr>doc_id = 0, doc_title = ''A'', doc_url = ''a'', doc_text = ''A | a'',
                doc_meta = [(''addr'', PNone), (''operating'', PNone), (''fee'', PNone)]\<rparr>,
              \<lparr>doc_id = 1, doc_title = ''B'', doc_url = ''b'', doc_text = ''B | b'',
                doc_meta = [(''addr'', PNone), (''operating'', PNone), (''fee'', PNone)]\<rparr>,
              \<lparr>doc_id = 2, doc_title = ''C'', doc_url = ''c'', doc_text = ''C | c'',
                doc_meta = [(''addr'', PNone), (''operating'', PNone), (''fee'', PNone)]\<rparr>],
      embeddings = Some [[1, 0], [0, 1], [1, 0]],
      embedder = Some (\<lambda>q. Inr [1, 0])\<rparr> ''x'' 2
   = Inr [\<lparr>hit_TITLE = ''C'', hit_URL = ''c'', SNIPPET = make_snippet ''C | c'', SCORE = 1\<rparr>,
          \<lparr>hit_TITLE = ''A'', hit_URL = ''a'', SNIPPET = make_snippet ''A | a'', SCORE = 1\<rparr>]"
  using reversing_argsort_meets_contract [of "map uminus [1, 0, 1]"]
  by (simp add: search_def search_example_scores top_k_def py_take_def stable_argsort_example
        reversing_argsort_example make_hit_def)

end
